theory Spec2Isabelle
  imports Complex_Main "HOL-Library.AList"
begin

section \<open>Data model of the game server (server/src/index.ts)\<close>

text \<open>
  The server keeps one module-level \<open>gameState\<close>, one closure per socket connection
  (its \<open>hasJoined\<close> flag and \<open>socket.data.playerId\<close>), and the callbacks it has handed
  to \<open>setTimeout\<close> and \<open>setInterval\<close>. The model threads all of that through a
  \<open>World\<close> record; every handler is a function from worlds to worlds, and everything a
  handler sends is appended to the \<open>emitted\<close> log of the world.

  Modelling choices:
  \<^item> JavaScript numbers that hold counters are \<open>int\<close> (they are integers far below
    \<open>2^53\<close>, where the arithmetic of doubles is exact); coordinates are \<open>real\<close>.
  \<^item> The roster \<open>gameState.players\<close> is an association list in insertion order, with
    each key at most once, as in a JavaScript object; \<open>players[k] = v\<close> is
    \<open>AList.update\<close> and \<open>delete players[k]\<close> is \<open>AList.delete\<close>.
  \<^item> The roster is a plain object (\<open>JSON.parse\<close> builds it), so reading \<open>players[k]\<close>
    finds an own key or else the member of \<open>Object.prototype\<close> of that name
    (\<open>lookupPlayer\<close>). The handlers write \<open>isActive\<close> on whatever they found; the world
    records those writes on inherited members in \<open>inheritedActive\<close>. A write made
    through the name \<open>__proto__\<close> lands on \<open>Object.prototype\<close> itself and adds the
    names \<open>isActive\<close>, \<open>position\<close> and \<open>rotation\<close> to what every object inherits;
    the lookup keeps to the members present at the start, and the statements about ids
    that name no member exclude these three names.
  \<^item> What \<open>uuidv4()\<close> returns is a parameter of the event that calls it.
  \<^item> Time is a millisecond clock \<open>now\<close>; a pending timer records when it is due, and
    timers run when an \<open>Elapse\<close> event moves the clock past their due time.
  \<^item> Sockets are numbered; a socket delivers events only while it is connected, and its
    closure outlives the connection (a pending leave sweep still writes to it).
\<close>

datatype team = Blue | Gold
datatype role = Queen | Worker | Soldier
datatype status = Waiting | Starting | Playing | Ended
datatype reason = Economic | Military | Snail

type_synonym vec3 = "real \<times> real \<times> real"

record Player =
  id_p :: string
  position :: vec3
  rotation :: vec3
  team :: team
  role :: role
  isActive :: bool

record BerryCount =
  blue :: int
  gold :: int

record GameState =
  status :: status
  players :: "(string \<times> Player) list"
  blueScore :: int
  goldScore :: int
  blueQueenAlive :: bool
  goldQueenAlive :: bool
  snailPosition :: int
  berryCount :: BerryCount

definition initialGameState :: GameState where
  "initialGameState =
     \<lparr>status = Waiting, players = [], blueScore = 0, goldScore = 0,
      blueQueenAlive = True, goldQueenAlive = True, snailPosition = 50,
      berryCount = \<lparr>blue = 0, gold = 0\<rparr>\<rparr>"

text \<open>Per-connection state: the closure variable \<open>hasJoined\<close>, \<open>socket.data.playerId\<close>
  (\<open>None\<close> is \<open>undefined\<close>), and whether the transport is still connected.\<close>

record Connection =
  hasJoined :: bool
  playerId :: "string option"
  live :: bool

text \<open>The callbacks given to \<open>setTimeout\<close> (with the variables they close over) and the
  \<open>setInterval\<close> callback.\<close>

datatype callback =
    RespawnQueen team
  | DisconnectSweep string
  | LeaveSweep nat string
  | IdleCheck

record timer =
  due :: nat
  callback :: callback

datatype audience = ToSocket nat | ToAll | ToOthers nat

datatype message =
    GameStateMsg GameState
  | PlayerAssigned string team role
  | GameOver team reason
  | PlayerPositionUpdate string vec3 vec3

record World =
  gameState :: GameState
  sockets :: "(nat \<times> Connection) list"
  timers :: "timer list"
  now :: nat
  emitted :: "(audience \<times> message) list"
  inheritedActive :: "(string \<times> bool) list"

definition initialWorld :: World where
  "initialWorld =
     \<lparr>gameState = initialGameState, sockets = [],
      timers = [\<lparr>due = 600000, callback = IdleCheck\<rparr>], now = 0, emitted = [],
      inheritedActive = []\<rparr>"

subsection \<open>Primitives\<close>

definition emit :: "audience \<Rightarrow> message \<Rightarrow> World \<Rightarrow> World" where
  "emit a m w = w\<lparr>emitted := emitted w @ [(a, m)]\<rparr>"

text \<open>\<open>io.emit('gameState', gameState)\<close>\<close>

definition broadcastState :: "World \<Rightarrow> World" where
  "broadcastState w = emit ToAll (GameStateMsg (gameState w)) w"

definition setTimeout :: "callback \<Rightarrow> nat \<Rightarrow> World \<Rightarrow> World" where
  "setTimeout cb delay w = w\<lparr>timers := timers w @ [\<lparr>due = now w + delay, callback = cb\<rparr>]\<rparr>"

text \<open>JavaScript truthiness of \<open>socket.data.playerId\<close>: \<open>undefined\<close> and the empty string
  are falsy.\<close>

definition truthy :: "string option \<Rightarrow> bool" where
  "truthy x = (case x of None \<Rightarrow> False | Some k \<Rightarrow> k \<noteq> [])"

text \<open>The members \<open>Object.prototype\<close> has when the server starts; each of them is an
  object (a function, or for \<open>__proto__\<close> the prototype itself) and so is truthy.\<close>

definition objectPrototypeMembers :: "string list" where
  "objectPrototypeMembers =
     [''constructor'', ''__defineGetter__'', ''__defineSetter__'', ''hasOwnProperty'',
      ''__lookupGetter__'', ''__lookupSetter__'', ''isPrototypeOf'', ''propertyIsEnumerable'',
      ''toString'', ''valueOf'', ''__proto__'', ''toLocaleString'']"

text \<open>What \<open>gameState.players[k]\<close> evaluates to: the roster entry under the own key
  \<open>k\<close>, else the inherited member of that name, else \<open>undefined\<close> (\<open>None\<close>).\<close>

datatype found = Entry Player | Inherited

definition lookupPlayer :: "GameState \<Rightarrow> string \<Rightarrow> found option" where
  "lookupPlayer gs k =
     (case map_of (players gs) k of
        Some p \<Rightarrow> Some (Entry p)
      | None \<Rightarrow> if k \<in> set objectPrototypeMembers then Some Inherited else None)"

text \<open>The test \<open>playerId && gameState.players[playerId]\<close> of the handlers: the bound id
  and what the lookup found, when both are truthy.\<close>

definition boundMember :: "World \<Rightarrow> nat \<Rightarrow> (string \<times> found) option" where
  "boundMember w s =
     (case map_of (sockets w) s of
        None \<Rightarrow> None
      | Some c \<Rightarrow>
          (case playerId c of
             None \<Rightarrow> None
           | Some k \<Rightarrow>
               if k = [] then None
               else (case lookupPlayer (gameState w) k of
                       None \<Rightarrow> None
                     | Some f \<Rightarrow> Some (k, f))))"

text \<open>The player a socket is bound to: its bound id and the roster entry under that key.\<close>

definition boundPlayer :: "World \<Rightarrow> nat \<Rightarrow> (string \<times> Player) option" where
  "boundPlayer w s =
     (case map_of (sockets w) s of
        None \<Rightarrow> None
      | Some c \<Rightarrow>
          (case playerId c of
             None \<Rightarrow> None
           | Some k \<Rightarrow>
               if k = [] then None
               else (case map_of (players (gameState w)) k of
                       None \<Rightarrow> None
                     | Some p \<Rightarrow> Some (k, p))))"

definition berryOf :: "team \<Rightarrow> BerryCount \<Rightarrow> int" where
  "berryOf t b = (case t of Blue \<Rightarrow> blue b | Gold \<Rightarrow> gold b)"

definition berryIncr :: "team \<Rightarrow> BerryCount \<Rightarrow> BerryCount" where
  "berryIncr t b = (case t of Blue \<Rightarrow> b\<lparr>blue := blue b + 1\<rparr> | Gold \<Rightarrow> b\<lparr>gold := gold b + 1\<rparr>)"

section \<open>Team and role assignment\<close>

definition assignTeamAndRole :: "(string \<times> Player) list \<Rightarrow> team \<times> role" where
  "assignTeamAndRole ps =
     (let blueCount = length (filter (\<lambda>p. team p = Blue) (map snd ps));
          goldCount = length (filter (\<lambda>p. team p = Gold) (map snd ps));
          tm = (if blueCount \<le> goldCount then Blue else Gold);
          teamPlayers = filter (\<lambda>p. team p = tm) (map snd ps)
      in if length teamPlayers = 0 then (tm, Queen)
         else if \<not> list_ex (\<lambda>p. role p = Queen) teamPlayers then (tm, Queen)
         else
           (let workerCount = length (filter (\<lambda>p. role p = Worker) teamPlayers);
                soldierCount = length (filter (\<lambda>p. role p = Soldier) teamPlayers)
            in (tm, if workerCount \<le> soldierCount then Worker else Soldier)))"

section \<open>Socket handlers\<close>

text \<open>\<open>socket.on('joinGame')\<close>; \<open>uuid\<close> is what \<open>uuidv4()\<close> returns.\<close>

definition joinGame :: "nat \<Rightarrow> string \<Rightarrow> World \<Rightarrow> World" where
  "joinGame s uuid w =
     (case map_of (sockets w) s of
        None \<Rightarrow> w
      | Some c \<Rightarrow>
          if hasJoined c \<or> truthy (playerId c) then w
          else
            (let (tm, rl) = assignTeamAndRole (players (gameState w));
                 p = \<lparr>id_p = uuid,
                      position = (if tm = Blue then (-15, 5, 0) else (15, 5, 0)),
                      rotation = (0, 0, 0), team = tm, role = rl, isActive = True\<rparr>;
                 gs1 = (gameState w)\<lparr>players := AList.update uuid p (players (gameState w))\<rparr>;
                 gs2 = (if status gs1 = Waiting \<and> 2 \<le> length (players gs1)
                        then gs1\<lparr>status := Playing\<rparr> else gs1);
                 c' = c\<lparr>hasJoined := True, playerId := Some uuid\<rparr>;
                 w1 = w\<lparr>gameState := gs2, sockets := AList.update s c' (sockets w)\<rparr>
             in broadcastState (emit (ToSocket s) (PlayerAssigned uuid tm rl) w1)))"

text \<open>\<open>socket.on('playerUpdate')\<close>. On an inherited member the two assignments write
  \<open>position\<close> and \<open>rotation\<close> on that member, outside the game state, and the update
  is sent all the same.\<close>

definition playerUpdate :: "nat \<Rightarrow> vec3 \<Rightarrow> vec3 \<Rightarrow> World \<Rightarrow> World" where
  "playerUpdate s pos rot w =
     (case boundMember w s of
        None \<Rightarrow> w
      | Some (k, Entry p) \<Rightarrow>
          (let gs1 = (gameState w)\<lparr>players :=
                       AList.update k (p\<lparr>position := pos, rotation := rot\<rparr>)
                         (players (gameState w))\<rparr>
           in emit (ToOthers s) (PlayerPositionUpdate k pos rot) (w\<lparr>gameState := gs1\<rparr>))
      | Some (k, Inherited) \<Rightarrow>
          emit (ToOthers s) (PlayerPositionUpdate k pos rot) w)"

text \<open>\<open>socket.on('collectBerry')\<close>. An inherited member has no \<open>role\<close>
  (\<open>player.role\<close> is \<open>undefined\<close>), so the role test fails for it; likewise in
  \<open>moveSnail\<close> and \<open>attackQueen\<close>.\<close>

definition collectBerry :: "nat \<Rightarrow> World \<Rightarrow> World" where
  "collectBerry s w =
     (case boundMember w s of
        None \<Rightarrow> w
      | Some (k, Inherited) \<Rightarrow> w
      | Some (k, Entry p) \<Rightarrow>
          if role p = Worker then
            (let gs1 = (gameState w)\<lparr>berryCount := berryIncr (team p) (berryCount (gameState w))\<rparr>;
                 w1 = w\<lparr>gameState := gs1\<rparr>;
                 w2 = (if 12 \<le> berryOf (team p) (berryCount gs1)
                       then emit ToAll (GameOver (team p) Economic)
                              (w1\<lparr>gameState := gs1\<lparr>status := Ended\<rparr>\<rparr>)
                       else w1)
             in broadcastState w2)
          else w)"

text \<open>\<open>socket.on('moveSnail')\<close>\<close>

definition moveSnail :: "nat \<Rightarrow> World \<Rightarrow> World" where
  "moveSnail s w =
     (case boundMember w s of
        None \<Rightarrow> w
      | Some (k, Inherited) \<Rightarrow> w
      | Some (k, Entry p) \<Rightarrow>
          if role p = Worker then
            (let direction = (if team p = Blue then 1 else -1);
                 gs1 = (gameState w)\<lparr>snailPosition :=
                         min 100 (max 0 (snailPosition (gameState w) + direction))\<rparr>;
                 w1 = w\<lparr>gameState := gs1\<rparr>;
                 w2 = (if 100 \<le> snailPosition gs1
                       then emit ToAll (GameOver Blue Snail) (w1\<lparr>gameState := gs1\<lparr>status := Ended\<rparr>\<rparr>)
                       else if snailPosition gs1 \<le> 0
                       then emit ToAll (GameOver Gold Snail) (w1\<lparr>gameState := gs1\<lparr>status := Ended\<rparr>\<rparr>)
                       else w1)
             in broadcastState w2)
          else w)"

text \<open>\<open>socket.on('attackQueen')\<close>\<close>

definition attackQueen :: "nat \<Rightarrow> World \<Rightarrow> World" where
  "attackQueen s w =
     (case boundMember w s of
        None \<Rightarrow> w
      | Some (k, Inherited) \<Rightarrow> w
      | Some (k, Entry p) \<Rightarrow>
          if role p = Soldier then
            (let targetTeam = (if team p = Blue then Gold else Blue);
                 gs1 = (if targetTeam = Blue
                        then (gameState w)\<lparr>blueQueenAlive := False,
                                           goldScore := goldScore (gameState w) + 1\<rparr>
                        else (gameState w)\<lparr>goldQueenAlive := False,
                                           blueScore := blueScore (gameState w) + 1\<rparr>);
                 w1 = w\<lparr>gameState := gs1\<rparr>;
                 w2 = (if 3 \<le> blueScore gs1
                       then emit ToAll (GameOver Blue Military) (w1\<lparr>gameState := gs1\<lparr>status := Ended\<rparr>\<rparr>)
                       else if 3 \<le> goldScore gs1
                       then emit ToAll (GameOver Gold Military) (w1\<lparr>gameState := gs1\<lparr>status := Ended\<rparr>\<rparr>)
                       else w1)
             in setTimeout (RespawnQueen targetTeam) 5000 (broadcastState w2))
          else w)"

text \<open>\<open>socket.on('disconnect')\<close>\<close>

definition disconnect :: "nat \<Rightarrow> World \<Rightarrow> World" where
  "disconnect s w =
     (case boundMember w s of
        None \<Rightarrow> w
      | Some (k, Entry p) \<Rightarrow>
          (let gs1 = (gameState w)\<lparr>players :=
                       AList.update k (p\<lparr>isActive := False\<rparr>) (players (gameState w))\<rparr>
           in setTimeout (DisconnectSweep k) 30000 (broadcastState (w\<lparr>gameState := gs1\<rparr>)))
      | Some (k, Inherited) \<Rightarrow>
          setTimeout (DisconnectSweep k) 30000
            (broadcastState (w\<lparr>inheritedActive := AList.update k False (inheritedActive w)\<rparr>)))"

text \<open>\<open>socket.on('leaveGame')\<close>\<close>

definition leaveGame :: "nat \<Rightarrow> World \<Rightarrow> World" where
  "leaveGame s w =
     (case boundMember w s of
        None \<Rightarrow> w
      | Some (k, Entry p) \<Rightarrow>
          (let gs1 = (gameState w)\<lparr>players :=
                       AList.update k (p\<lparr>isActive := False\<rparr>) (players (gameState w))\<rparr>
           in setTimeout (LeaveSweep s k) 1000 (broadcastState (w\<lparr>gameState := gs1\<rparr>)))
      | Some (k, Inherited) \<Rightarrow>
          setTimeout (LeaveSweep s k) 1000
            (broadcastState (w\<lparr>inheritedActive := AList.update k False (inheritedActive w)\<rparr>)))"

text \<open>\<open>socket.on('reconnectPlayer')\<close>; \<open>k\<close> is \<open>data.playerId\<close>, \<open>uuid\<close> is what
  \<open>uuidv4()\<close> returns in the fallback branch. The first branch is taken whenever the
  lookup is truthy, for an inherited member too: the socket is bound to \<open>k\<close> and
  \<open>isActive\<close> is set on the member.\<close>

definition reconnectPlayer :: "nat \<Rightarrow> string \<Rightarrow> string \<Rightarrow> World \<Rightarrow> World" where
  "reconnectPlayer s k uuid w =
     (case map_of (sockets w) s of
        None \<Rightarrow> w
      | Some c \<Rightarrow>
          (case (if k = [] then None else lookupPlayer (gameState w) k) of
             Some (Entry p) \<Rightarrow>
               (let c' = c\<lparr>playerId := Some k, hasJoined := True\<rparr>;
                    gs1 = (gameState w)\<lparr>players :=
                            AList.update k (p\<lparr>isActive := True\<rparr>) (players (gameState w))\<rparr>;
                    w1 = w\<lparr>gameState := gs1, sockets := AList.update s c' (sockets w)\<rparr>
                in broadcastState (emit (ToSocket s) (GameStateMsg gs1) w1))
           | Some Inherited \<Rightarrow>
               (let c' = c\<lparr>playerId := Some k, hasJoined := True\<rparr>;
                    w1 = w\<lparr>sockets := AList.update s c' (sockets w),
                           inheritedActive := AList.update k True (inheritedActive w)\<rparr>
                in broadcastState (emit (ToSocket s) (GameStateMsg (gameState w)) w1))
           | None \<Rightarrow>
               (let newPlayerId = uuid;
                    (tm, rl) = assignTeamAndRole (players (gameState w));
                    p = \<lparr>id_p = newPlayerId,
                         position = (if tm = Blue then (-15, 5, 0) else (15, 5, 0)),
                         rotation = (0, 0, 0), team = tm, role = rl, isActive = True\<rparr>;
                    gs1 = (gameState w)\<lparr>players :=
                            AList.update newPlayerId p (players (gameState w))\<rparr>;
                    gs2 = (if status gs1 = Waiting \<and> 2 \<le> length (players gs1)
                           then gs1\<lparr>status := Playing\<rparr> else gs1);
                    c' = c\<lparr>playerId := Some newPlayerId, hasJoined := True\<rparr>;
                    w1 = w\<lparr>gameState := gs2, sockets := AList.update s c' (sockets w)\<rparr>
                in broadcastState (emit (ToSocket s) (PlayerAssigned newPlayerId tm rl) w1))))"

section \<open>Timer callbacks\<close>

text \<open>\<open>resetGame\<close>: the module variable \<open>gameState\<close> is replaced by a fresh copy of the
  initial state; nothing else is touched.\<close>

definition resetGame :: "World \<Rightarrow> World" where
  "resetGame w = broadcastState (w\<lparr>gameState := initialGameState\<rparr>)"

text \<open>The body of the \<open>setInterval\<close> callback.\<close>

definition idleCheck :: "World \<Rightarrow> World" where
  "idleCheck w = (if status (gameState w) = Ended then resetGame w else w)"

text \<open>The body of each scheduled callback. In the two sweeps \<open>delete\<close> of a name that
  is not an own key of the roster removes nothing.\<close>

fun runCallback :: "callback \<Rightarrow> World \<Rightarrow> World" where
  "runCallback (RespawnQueen targetTeam) w =
     broadcastState
       (if targetTeam = Blue
        then w\<lparr>gameState := (gameState w)\<lparr>blueQueenAlive := True\<rparr>\<rparr>
        else w\<lparr>gameState := (gameState w)\<lparr>goldQueenAlive := True\<rparr>\<rparr>)"
| "runCallback (DisconnectSweep k) w =
     (case lookupPlayer (gameState w) k of
        None \<Rightarrow> w
      | Some (Entry p) \<Rightarrow>
          if \<not> isActive p
          then broadcastState
                 (w\<lparr>gameState := (gameState w)\<lparr>players := AList.delete k (players (gameState w))\<rparr>\<rparr>)
          else w
      | Some Inherited \<Rightarrow>
          if map_of (inheritedActive w) k \<noteq> Some True then broadcastState w else w)"
| "runCallback (LeaveSweep s k) w =
     (case lookupPlayer (gameState w) k of
        None \<Rightarrow> w
      | Some (Entry p) \<Rightarrow>
          broadcastState
            (w\<lparr>gameState := (gameState w)\<lparr>players := AList.delete k (players (gameState w))\<rparr>,
               sockets := AList.map_entry s (\<lambda>c. c\<lparr>playerId := None, hasJoined := False\<rparr>)
                            (sockets w)\<rparr>)
      | Some Inherited \<Rightarrow>
          broadcastState
            (w\<lparr>sockets := AList.map_entry s (\<lambda>c. c\<lparr>playerId := None, hasJoined := False\<rparr>)
                            (sockets w)\<rparr>))"
| "runCallback IdleCheck w = idleCheck w"

text \<open>A timer fires: a one-shot timer leaves the pending list, the interval timer is
  re-armed one period (ten minutes) later; the clock has reached the timer's due time.\<close>

definition fire :: "timer \<Rightarrow> World \<Rightarrow> World" where
  "fire tm w =
     (let pending = remove1 tm (timers w);
          pending' = (if callback tm = IdleCheck
                      then pending @ [\<lparr>due = due tm + 600000, callback = IdleCheck\<rparr>]
                      else pending)
      in runCallback (callback tm) (w\<lparr>timers := pending', now := max (now w) (due tm)\<rparr>))"

text \<open>The pending timer that is due first (the earliest scheduled one among equals).\<close>

fun earliest :: "timer list \<Rightarrow> timer option" where
  "earliest [] = None"
| "earliest (tm # tms) =
     (case earliest tms of
        None \<Rightarrow> Some tm
      | Some tm' \<Rightarrow> if due tm \<le> due tm' then Some tm else Some tm')"

section \<open>The event loop\<close>

text \<open>How many callback runs are still to come before time \<open>t\<close>: one for each one-shot
  timer due by then, and one for each period of the interval timer that ends by then.\<close>

definition weight :: "nat \<Rightarrow> timer \<Rightarrow> nat" where
  "weight t tm =
     (if due tm \<le> t
      then (if callback tm = IdleCheck then 1 + (t - due tm) div 600000 else 1)
      else 0)"

definition pendingWork :: "nat \<Rightarrow> World \<Rightarrow> nat" where
  "pendingWork t w = sum_list (map (weight t) (timers w))"

lemma earliest_in_set: "earliest tms = Some tm \<Longrightarrow> tm \<in> set tms"
  by (induction tms arbitrary: tm) (auto split: option.splits if_splits)

lemma timers_emit [simp]: "timers (emit a m w) = timers w"
  by (simp add: emit_def)

lemma timers_broadcastState [simp]: "timers (broadcastState w) = timers w"
  by (simp add: broadcastState_def)

lemma timers_runCallback [simp]: "timers (runCallback cb w) = timers w"
  by (cases cb) (auto simp: idleCheck_def resetGame_def split: option.splits found.splits)

lemma timers_fire:
  "timers (fire tm w) =
     (if callback tm = IdleCheck
      then remove1 tm (timers w) @ [\<lparr>due = due tm + 600000, callback = IdleCheck\<rparr>]
      else remove1 tm (timers w))"
  by (simp add: fire_def Let_def)

lemma weight_rearm:
  "due tm \<le> t \<Longrightarrow> callback tm = IdleCheck \<Longrightarrow>
   weight t \<lparr>due = due tm + 600000, callback = IdleCheck\<rparr> < weight t tm"
proof -
  assume d: "due tm \<le> t" and c: "callback tm = IdleCheck"
  show ?thesis
  proof (cases "due tm + 600000 \<le> t")
    case True
    then have "(t - due tm) div 600000 = Suc ((t - (due tm + 600000)) div 600000)"
      by (simp add: le_div_geq)
    with True d c show ?thesis by (simp add: weight_def)
  next
    case False
    with d c show ?thesis by (simp add: weight_def)
  qed
qed

lemma pendingWork_fire:
  assumes "tm \<in> set (timers w)" and "due tm \<le> t"
  shows "pendingWork t (fire tm w) < pendingWork t w"
proof -
  have split: "sum_list (map (weight t) (timers w)) =
               weight t tm + sum_list (map (weight t) (remove1 tm (timers w)))"
    using assms(1) by (rule sum_list_map_remove1)
  show ?thesis
  proof (cases "callback tm = IdleCheck")
    case True
    with weight_rearm [OF assms(2) True] split show ?thesis
      by (simp add: pendingWork_def timers_fire)
  next
    case False
    with assms(2) split show ?thesis
      by (simp add: pendingWork_def timers_fire weight_def)
  qed
qed

text \<open>Time passes up to \<open>t\<close>: the due timers fire one after the other, earliest first.\<close>

function advance :: "nat \<Rightarrow> World \<Rightarrow> World" where
  "advance t w =
     (case earliest (timers w) of
        None \<Rightarrow> w\<lparr>now := max (now w) t\<rparr>
      | Some tm \<Rightarrow>
          if due tm \<le> t then advance t (fire tm w) else w\<lparr>now := max (now w) t\<rparr>)"
  by pat_completeness auto
termination
  by (relation "measure (\<lambda>(t, w). pendingWork t w)")
     (auto intro: pendingWork_fire earliest_in_set)

declare advance.simps [simp del]

text \<open>A new connection: \<open>io.on('connection')\<close> creates the closure with
  \<open>hasJoined = false\<close> and no bound player. Socket ids are unique.\<close>

definition connect :: "nat \<Rightarrow> World \<Rightarrow> World" where
  "connect s w =
     (if map_of (sockets w) s = None
      then w\<lparr>sockets := sockets w @ [(s, \<lparr>hasJoined = False, playerId = None, live = True\<rparr>)]\<rparr>
      else w)"

text \<open>What can happen to the server: a client connects, a connected client sends one of
  its events or its transport closes, or time passes.\<close>

datatype event =
    Connect nat
  | JoinGame nat string
  | PlayerUpdate nat vec3 vec3
  | CollectBerry nat
  | MoveSnail nat
  | AttackQueen nat
  | Disconnect nat
  | LeaveGame nat
  | ReconnectPlayer nat string string
  | Elapse nat

text \<open>Only a connected socket delivers events.\<close>

definition deliver :: "nat \<Rightarrow> (World \<Rightarrow> World) \<Rightarrow> World \<Rightarrow> World" where
  "deliver s h w =
     (case map_of (sockets w) s of
        None \<Rightarrow> w
      | Some c \<Rightarrow> if live c then h w else w)"

definition closeTransport :: "nat \<Rightarrow> World \<Rightarrow> World" where
  "closeTransport s w = w\<lparr>sockets := AList.map_entry s (\<lambda>c. c\<lparr>live := False\<rparr>) (sockets w)\<rparr>"

fun step :: "event \<Rightarrow> World \<Rightarrow> World" where
  "step (Connect s) w = connect s w"
| "step (JoinGame s uuid) w = deliver s (joinGame s uuid) w"
| "step (PlayerUpdate s pos rot) w = deliver s (playerUpdate s pos rot) w"
| "step (CollectBerry s) w = deliver s (collectBerry s) w"
| "step (MoveSnail s) w = deliver s (moveSnail s) w"
| "step (AttackQueen s) w = deliver s (attackQueen s) w"
| "step (Disconnect s) w = deliver s (\<lambda>w'. disconnect s (closeTransport s w')) w"
| "step (LeaveGame s) w = deliver s (leaveGame s) w"
| "step (ReconnectPlayer s k uuid) w = deliver s (reconnectPlayer s k uuid) w"
| "step (Elapse dt) w = advance (now w + dt) w"

fun run :: "event list \<Rightarrow> World \<Rightarrow> World" where
  "run [] w = w"
| "run (e # es) w = run es (step e w)"

section \<open>Properties\<close>

subsection \<open>Vocabulary of the properties\<close>

text \<open>The members of a team in the roster (\<open>Object.values\<close> order) and its queens.\<close>

definition teamMembers :: "team \<Rightarrow> GameState \<Rightarrow> Player list" where
  "teamMembers t gs = filter (\<lambda>p. team p = t) (map snd (players gs))"

definition queensOf :: "team \<Rightarrow> GameState \<Rightarrow> Player list" where
  "queensOf t gs = filter (\<lambda>p. role p = Queen) (teamMembers t gs)"

definition oneQueenPerTeam :: "GameState \<Rightarrow> bool" where
  "oneQueenPerTeam gs =
     list_all (\<lambda>t. teamMembers t gs \<noteq> [] \<longrightarrow> length (queensOf t gs) = 1) [Blue, Gold]"

text \<open>Traces that only connect sockets and send \<open>joinGame\<close>.\<close>

fun isJoin :: "event \<Rightarrow> bool" where
  "isJoin (Connect s) = True"
| "isJoin (JoinGame s uuid) = True"
| "isJoin _ = False"

text \<open>The identifiers \<open>uuidv4()\<close> hands out along a trace.\<close>

fun uuidOf :: "event \<Rightarrow> string list" where
  "uuidOf (JoinGame s uuid) = [uuid]"
| "uuidOf (ReconnectPlayer s k uuid) = [uuid]"
| "uuidOf _ = []"

definition uuidsOf :: "event list \<Rightarrow> string list" where
  "uuidsOf evs = concat (map uuidOf evs)"

text \<open>Three sockets connect and join: a blue queen, a gold queen and a blue worker.\<close>

definition threeJoins :: "event list" where
  "threeJoins =
     [Connect 0, Connect 1, Connect 2, JoinGame 0 ''a'', JoinGame 1 ''b'', JoinGame 2 ''c'']"

text \<open>What a handler call that takes \<open>w\<close> to \<open>w'\<close> has sent.\<close>

definition sent :: "World \<Rightarrow> World \<Rightarrow> (audience \<times> message) list" where
  "sent w w' = drop (length (emitted w)) (emitted w')"

definition otherTeam :: "team \<Rightarrow> team" where
  "otherTeam t = (case t of Blue \<Rightarrow> Gold | Gold \<Rightarrow> Blue)"

definition queenAlive :: "team \<Rightarrow> GameState \<Rightarrow> bool" where
  "queenAlive t gs = (case t of Blue \<Rightarrow> blueQueenAlive gs | Gold \<Rightarrow> goldQueenAlive gs)"

definition scoreOf :: "team \<Rightarrow> GameState \<Rightarrow> int" where
  "scoreOf t gs = (case t of Blue \<Rightarrow> blueScore gs | Gold \<Rightarrow> goldScore gs)"

text \<open>Six sockets connect and join in turn; the assignment gives a queen, a worker and a
  soldier to each team.\<close>

definition sixJoins :: "event list" where
  "sixJoins =
     [Connect 0, JoinGame 0 ''a'', Connect 1, JoinGame 1 ''b'', Connect 2, JoinGame 2 ''c'',
      Connect 3, JoinGame 3 ''d'', Connect 4, JoinGame 4 ''e'', Connect 5, JoinGame 5 ''f'']"

definition lobby :: World where
  "lobby = run sixJoins initialWorld"

definition member :: "string \<Rightarrow> team \<Rightarrow> role \<Rightarrow> Player" where
  "member k t r =
     \<lparr>id_p = k, position = (if t = Blue then (-15, 5, 0) else (15, 5, 0)),
      rotation = (0, 0, 0), team = t, role = r, isActive = True\<rparr>"

text \<open>The same world with the snail moved to \<open>x\<close>.\<close>

definition withSnail :: "int \<Rightarrow> World \<Rightarrow> World" where
  "withSnail x w = w\<lparr>gameState := (gameState w)\<lparr>snailPosition := x\<rparr>\<rparr>"


text \<open>The blue worker on socket 2 collects twelve berries after the six joins.\<close>

definition twelveBerries :: "event list" where
  "twelveBerries =
     [CollectBerry 2, CollectBerry 2, CollectBerry 2, CollectBerry 2, CollectBerry 2,
      CollectBerry 2, CollectBerry 2, CollectBerry 2, CollectBerry 2, CollectBerry 2,
      CollectBerry 2, CollectBerry 2]"

definition afterTwelve :: World where
  "afterTwelve = run (sixJoins @ twelveBerries) initialWorld"


text \<open>After the six joins the blue soldier on socket 4 attacks three times, which ends the
  game, and then the gold soldier on socket 5 attacks twice.\<close>

definition fiveAttacks :: "event list" where
  "fiveAttacks = [AttackQueen 4, AttackQueen 4, AttackQueen 4, AttackQueen 5, AttackQueen 5]"

definition afterAttacks :: World where
  "afterAttacks = run (sixJoins @ fiveAttacks) initialWorld"

text \<open>The same world with the two scores set.\<close>

definition withScores :: "int \<Rightarrow> int \<Rightarrow> World \<Rightarrow> World" where
  "withScores b g w = w\<lparr>gameState := (gameState w)\<lparr>blueScore := b, goldScore := g\<rparr>\<rparr>"


text \<open>After the six joins the blue worker on socket 2 sends \<open>leaveGame\<close>; until the leave
  sweep runs a second later its player is in the roster, inactive, and still bound.\<close>

definition afterLeave :: World where
  "afterLeave = run (sixJoins @ [LeaveGame 2]) initialWorld"


text \<open>The world in which socket \<open>s\<close> has not joined yet: its closure still has
  \<open>hasJoined = false\<close> and no bound player.\<close>

definition unjoined :: "nat \<Rightarrow> World \<Rightarrow> World" where
  "unjoined s w =
     w\<lparr>sockets := AList.map_entry s (\<lambda>c. c\<lparr>hasJoined := False, playerId := None\<rparr>) (sockets w)\<rparr>"

text \<open>One player has joined and a second socket has just connected.\<close>

definition secondArrives :: World where
  "secondArrives = run [Connect 0, JoinGame 0 ''a'', Connect 1] initialWorld"


text \<open>The gameplay events and the \<open>joinGame\<close> of one socket.\<close>

fun ownGameplay :: "nat \<Rightarrow> event \<Rightarrow> bool" where
  "ownGameplay s (PlayerUpdate s' pos rot) = (s' = s)"
| "ownGameplay s (CollectBerry s') = (s' = s)"
| "ownGameplay s (MoveSnail s') = (s' = s)"
| "ownGameplay s (AttackQueen s') = (s' = s)"
| "ownGameplay s (LeaveGame s') = (s' = s)"
| "ownGameplay s (JoinGame s' uuid) = (s' = s)"
| "ownGameplay s _ = False"

text \<open>What the client on socket 2 may try after a reset.\<close>

definition strandedTries :: "event list" where
  "strandedTries =
     [CollectBerry 2, JoinGame 2 ''x'', PlayerUpdate 2 (1, 2, 3) (0, 1, 0), MoveSnail 2,
      AttackQueen 2, LeaveGame 2, JoinGame 2 ''y'']"


text \<open>After the attack that schedules the respawn the blue soldier attacks twice more,
  which ends the game, four seconds pass, and it attacks again.\<close>

definition fightOn :: "event list" where
  "fightOn = [AttackQueen 4, AttackQueen 4, Elapse 4000, AttackQueen 4]"


text \<open>The connected sockets bound to player id \<open>k\<close>, and whether a socket other than
  \<open>s\<close> is among them.\<close>

definition holders :: "string \<Rightarrow> World \<Rightarrow> nat list" where
  "holders k w = map fst (filter (\<lambda>(s, c). live c \<and> playerId c = Some k) (sockets w))"

definition heldElsewhere :: "World \<Rightarrow> nat \<Rightarrow> string \<Rightarrow> bool" where
  "heldElsewhere w s k = list_ex (\<lambda>s'. s' \<noteq> s) (holders k w)"

text \<open>The socket and the id that \<open>joinGame\<close> and \<open>reconnectPlayer\<close> bind together: the
  fresh uuid, or on a reconnect the requested id when the lookup finds it.\<close>

fun bindsTo :: "event \<Rightarrow> World \<Rightarrow> (nat \<times> string) option" where
  "bindsTo (JoinGame s uuid) w = Some (s, uuid)"
| "bindsTo (ReconnectPlayer s k uuid) w =
     (if k \<noteq> [] \<and> lookupPlayer (gameState w) k \<noteq> None then Some (s, k) else Some (s, uuid))"
| "bindsTo _ w = None"

text \<open>A trace in which every id is, at the moment a socket is bound to it, held by no other
  connected socket.\<close>

fun exclusive :: "event list \<Rightarrow> World \<Rightarrow> bool" where
  "exclusive [] w = True"
| "exclusive (e # es) w =
     ((case bindsTo e w of None \<Rightarrow> True | Some (s, k) \<Rightarrow> \<not> heldElsewhere w s k) \<and>
      exclusive es (step e w))"

text \<open>No two connected sockets of the table are bound to the same id.\<close>

definition oneHolder :: "(nat \<rightharpoonup> Connection) \<Rightarrow> bool" where
  "oneHolder m =
     (\<forall>s1 c1 s2 c2 k. m s1 = Some c1 \<and> m s2 = Some c2 \<and> live c1 \<and> live c2 \<and>
        playerId c1 = Some k \<and> playerId c2 = Some k \<longrightarrow> s1 = s2)"

definition sessionsOK :: "World \<Rightarrow> bool" where
  "sessionsOK w = (distinct (map fst (sockets w)) \<and> oneHolder (map_of (sockets w)))"

text \<open>A second socket reconnects as a player whose first socket is still connected; and a
  socket that reconnects as a player after that player's socket has disconnected.\<close>

definition twoSessions :: "event list" where
  "twoSessions = [Connect 0, JoinGame 0 ''a'', Connect 1, ReconnectPlayer 1 ''a'' ''b'']"

definition handover :: "event list" where
  "handover =
     [Connect 0, JoinGame 0 ''a'', Connect 1, JoinGame 1 ''b'', Disconnect 0, Connect 2,
      ReconnectPlayer 2 ''a'' ''c'']"


text \<open>A socket bound to \<open>__proto__\<close> makes the handlers write \<open>isActive\<close>,
  \<open>position\<close> and \<open>rotation\<close> on \<open>Object.prototype\<close> itself, and from then on these
  three names are inherited members too. \<open>lookupPlayer\<close> does not follow those writes;
  the statements about ids that name no member leave the three names out.\<close>

definition writtenOnPrototype :: "string list" where
  "writtenOnPrototype = [''isActive'', ''position'', ''rotation'']"

text \<open>The handlers' test fails for socket \<open>s\<close>: it has no bound id, or its bound id names
  neither a roster entry nor an inherited member.\<close>

definition noMember :: "World \<Rightarrow> nat \<Rightarrow> bool" where
  "noMember w s =
     (boundMember w s = None \<and>
      (case map_of (sockets w) s of
         None \<Rightarrow> True
       | Some c \<Rightarrow>
           (case playerId c of None \<Rightarrow> True | Some k \<Rightarrow> k \<notin> set writtenOnPrototype)))"

text \<open>After the six joins a seventh socket connects and sends \<open>reconnectPlayer\<close> with the
  id \<open>constructor\<close>; the blue worker collects twelve berries, which ends the game. Ten
  minutes after the start the idle check runs and resets it.\<close>

definition endedBound :: World where
  "endedBound =
     run (sixJoins @ [Connect 6, ReconnectPlayer 6 ''constructor'' ''g''] @ twelveBerries)
       initialWorld"

definition afterReset :: World where
  "afterReset = step (Elapse 600000) endedBound"

subsection \<open>Unfolding the handlers on concrete worlds\<close>

lemmas handler_defs =
  connect_def deliver_def closeTransport_def joinGame_def playerUpdate_def collectBerry_def
  moveSnail_def attackQueen_def disconnect_def leaveGame_def reconnectPlayer_def
  boundMember_def lookupPlayer_def objectPrototypeMembers_def boundPlayer_def
  assignTeamAndRole_def truthy_def emit_def broadcastState_def setTimeout_def
  berryOf_def berryIncr_def resetGame_def idleCheck_def fire_def Let_def

lemmas start_defs = initialWorld_def initialGameState_def

subsection \<open>Basic facts\<close>

lemma boundMember_Entry:
  "boundPlayer w s = Some (k, p) \<Longrightarrow> boundMember w s = Some (k, Entry p)"
  by (auto simp: boundPlayer_def boundMember_def lookupPlayer_def split: option.splits if_splits)

lemma boundMember_None_boundPlayer:
  "boundMember w s = None \<Longrightarrow> boundPlayer w s = None"
  by (auto simp: boundPlayer_def boundMember_def lookupPlayer_def split: option.splits if_splits)

lemma lookupPlayer_own:
  "map_of (players gs) k = Some p \<Longrightarrow> lookupPlayer gs k = Some (Entry p)"
  by (simp add: lookupPlayer_def)

lemma gameState_emit [simp]: "gameState (emit a m w) = gameState w"
  by (simp add: emit_def)

lemma gameState_broadcastState [simp]: "gameState (broadcastState w) = gameState w"
  by (simp add: broadcastState_def)

lemma gameState_connect [simp]: "gameState (connect s w) = gameState w"
  by (simp add: connect_def)

lemma run_append: "run (xs @ ys) w = run ys (run xs w)"
  by (induction xs arbitrary: w) simp_all

subsection \<open>Joining keeps one queen per team\<close>

lemma values_update_fresh:
  "k \<notin> fst ` set ps \<Longrightarrow> map snd (AList.update k v ps) = map snd ps @ [v]"
  by (induction ps) auto

lemma keys_update: "fst ` set (AList.update k v ps) = insert k (fst ` set ps)"
  by (induction ps) auto

lemma role_choice:
  assumes "(if length tp = 0 then (t, Queen)
            else if \<not> list_ex Q tp then (t, Queen)
            else (t, if a \<le> b then Worker else Soldier)) = (tm, rl)"
  shows "tm = t \<and> (rl = Queen) = (filter Q tp = [])"
  using assms by (auto split: if_splits simp: list_ex_iff filter_empty_conv)

lemma assign_role_queen_iff:
  assumes "assignTeamAndRole ps = (tm, rl)"
  shows "(rl = Queen) = (filter (\<lambda>p. role p = Queen) (filter (\<lambda>p. team p = tm) (map snd ps)) = [])"
proof -
  let ?t = "if length (filter (\<lambda>p. team p = Blue) (map snd ps))
               \<le> length (filter (\<lambda>p. team p = Gold) (map snd ps)) then Blue else Gold"
  from assms
  have "tm = ?t \<and> (rl = Queen) =
        (filter (\<lambda>p. role p = Queen) (filter (\<lambda>p. team p = ?t) (map snd ps)) = [])"
    unfolding assignTeamAndRole_def Let_def by (rule role_choice)
  then show ?thesis by blast
qed

lemma oneQueen_after_insert:
  assumes inv: "oneQueenPerTeam gs"
    and fresh: "uuid \<notin> fst ` set (players gs)"
    and asg: "assignTeamAndRole (players gs) = (tm, rl)"
    and p: "team p = tm" "role p = rl"
  shows "oneQueenPerTeam (gs\<lparr>players := AList.update uuid p (players gs)\<rparr>)"
proof -
  have q: "(rl = Queen) = (queensOf tm gs = [])"
    using assign_role_queen_iff [OF asg] by (simp add: queensOf_def teamMembers_def)
  have i: "teamMembers t gs \<noteq> [] \<Longrightarrow> length (queensOf t gs) = 1" for t
    using inv by (cases t) (simp_all add: oneQueenPerTeam_def)
  have e: "teamMembers t gs = [] \<Longrightarrow> queensOf t gs = []" for t
    by (simp add: queensOf_def)
  have "teamMembers t (gs\<lparr>players := AList.update uuid p (players gs)\<rparr>) \<noteq> [] \<longrightarrow>
        length (queensOf t (gs\<lparr>players := AList.update uuid p (players gs)\<rparr>)) = 1" for t
  proof (cases "t = tm")
    case True
    show ?thesis
    proof (cases "teamMembers tm gs = []")
      case True
      with q e [of tm] have "rl = Queen" by simp
      with True \<open>t = tm\<close> p e [of tm] show ?thesis
        by (simp add: queensOf_def teamMembers_def values_update_fresh [OF fresh])
    next
      case False
      from i [OF False] have "queensOf tm gs \<noteq> []" by auto
      with q have "rl \<noteq> Queen" by simp
      with i [OF False] \<open>t = tm\<close> p show ?thesis
        by (simp add: queensOf_def teamMembers_def values_update_fresh [OF fresh])
    qed
  next
    case False
    with p i [of t] show ?thesis
      by (auto simp add: queensOf_def teamMembers_def values_update_fresh [OF fresh])
  qed
  then show ?thesis by (simp add: oneQueenPerTeam_def)
qed

lemma oneQueen_status [simp]: "oneQueenPerTeam (gs\<lparr>status := x\<rparr>) = oneQueenPerTeam gs"
  by (simp add: oneQueenPerTeam_def queensOf_def teamMembers_def)

lemma joinGame_oneQueen:
  assumes inv: "oneQueenPerTeam (gameState w)"
    and fresh: "uuid \<notin> fst ` set (players (gameState w))"
  shows "oneQueenPerTeam (gameState (joinGame s uuid w))"
proof (cases "map_of (sockets w) s")
  case None
  with inv show ?thesis by (simp add: joinGame_def)
next
  case (Some c)
  show ?thesis
  proof (cases "hasJoined c \<or> truthy (playerId c)")
    case True
    with Some inv show ?thesis by (simp add: joinGame_def)
  next
    case False
    obtain tm rl where asg: "assignTeamAndRole (players (gameState w)) = (tm, rl)"
      by (cases "assignTeamAndRole (players (gameState w))")
    let ?p = "\<lparr>id_p = uuid, position = (if tm = Blue then (-15, 5, 0) else (15, 5, 0)),
               rotation = (0, 0, 0), team = tm, role = rl, isActive = True\<rparr>"
    have "oneQueenPerTeam ((gameState w)\<lparr>players := AList.update uuid ?p (players (gameState w))\<rparr>)"
      by (rule oneQueen_after_insert [OF inv fresh asg]) simp_all
    with Some False asg show ?thesis by (simp add: joinGame_def Let_def)
  qed
qed

lemma joinGame_keys:
  "fst ` set (players (gameState (joinGame s uuid w))) \<subseteq> insert uuid (fst ` set (players (gameState w)))"
  by (auto simp: joinGame_def Let_def keys_update split: option.splits prod.splits if_splits)

lemma step_join_oneQueen:
  assumes "isJoin e" and "oneQueenPerTeam (gameState w)"
    and "set (uuidOf e) \<inter> fst ` set (players (gameState w)) = {}"
  shows "oneQueenPerTeam (gameState (step e w))"
  using assms by (cases e) (auto simp: deliver_def joinGame_oneQueen split: option.splits)

lemma step_join_keys:
  assumes "isJoin e"
  shows "fst ` set (players (gameState (step e w))) \<subseteq> set (uuidOf e) \<union> fst ` set (players (gameState w))"
  using assms joinGame_keys by (cases e) (auto simp: deliver_def split: option.splits)

lemma run_joins_oneQueen:
  assumes "list_all isJoin evs" and "distinct (uuidsOf evs)"
    and "oneQueenPerTeam (gameState w)"
    and "set (uuidsOf evs) \<inter> fst ` set (players (gameState w)) = {}"
  shows "oneQueenPerTeam (gameState (run evs w))"
  using assms
proof (induction evs arbitrary: w)
  case Nil
  then show ?case by simp
next
  case (Cons e evs)
  have 0: "set (uuidOf e) \<inter> fst ` set (players (gameState w)) = {}"
    using Cons.prems(4) by (auto simp: uuidsOf_def)
  have 1: "oneQueenPerTeam (gameState (step e w))"
    using Cons.prems(1,3) 0 by (intro step_join_oneQueen) simp_all
  have j: "isJoin e" using Cons.prems by simp
  have d1: "set (uuidsOf evs) \<inter> set (uuidOf e) = {}"
    using Cons.prems(2) by (auto simp: uuidsOf_def)
  have d2: "set (uuidsOf evs) \<inter> fst ` set (players (gameState w)) = {}"
    using Cons.prems(4) by (auto simp: uuidsOf_def)
  have 2: "set (uuidsOf evs) \<inter> fst ` set (players (gameState (step e w))) = {}"
    using step_join_keys [OF j, of w] d1 d2 by blast
  have 3: "list_all isJoin evs" "distinct (uuidsOf evs)"
    using Cons.prems by (auto simp: uuidsOf_def)
  show ?case
    using Cons.IH [OF 3 1 2] by simp
qed

lemma list_all_take: "list_all P xs \<Longrightarrow> list_all P (take n xs)"
  by (auto simp: list_all_iff dest: in_set_takeD)

lemma uuidsOf_take: "distinct (uuidsOf evs) \<Longrightarrow> distinct (uuidsOf (take n evs))"
proof -
  assume d: "distinct (uuidsOf evs)"
  have "uuidsOf evs = uuidsOf (take n evs) @ uuidsOf (drop n evs)"
    unfolding uuidsOf_def by (metis append_take_drop_id concat_append map_append)
  with d show ?thesis by simp
qed


subsection \<open>What the handlers send\<close>

lemma sent_self [simp]: "sent w w = []"
  by (simp add: sent_def)

lemma emitted_broadcastState: "emitted (broadcastState w) = emitted w @ [(ToAll, GameStateMsg (gameState w))]"
  by (simp add: broadcastState_def emit_def)

lemma emitted_emit: "emitted (emit a m w) = emitted w @ [(a, m)]"
  by (simp add: emit_def)

lemma emitted_setTimeout [simp]: "emitted (setTimeout cb d w) = emitted w"
  by (simp add: setTimeout_def)

lemma gameState_setTimeout [simp]: "gameState (setTimeout cb d w) = gameState w"
  by (simp add: setTimeout_def)

lemmas sent_defs = sent_def emitted_broadcastState emitted_emit

subsection \<open>The world after six joins\<close>

lemma gameState_lobby:
  "gameState lobby =
     initialGameState\<lparr>status := Playing,
       players := [(''a'', member ''a'' Blue Queen), (''b'', member ''b'' Gold Queen),
                   (''c'', member ''c'' Blue Worker), (''d'', member ''d'' Gold Worker),
                   (''e'', member ''e'' Blue Soldier), (''f'', member ''f'' Gold Soldier)]\<rparr>"
  by (simp add: lobby_def sixJoins_def start_defs handler_defs member_def)

lemma sockets_lobby:
  "sockets lobby =
     [(0, \<lparr>hasJoined = True, playerId = Some ''a'', live = True\<rparr>),
      (1, \<lparr>hasJoined = True, playerId = Some ''b'', live = True\<rparr>),
      (2, \<lparr>hasJoined = True, playerId = Some ''c'', live = True\<rparr>),
      (3, \<lparr>hasJoined = True, playerId = Some ''d'', live = True\<rparr>),
      (4, \<lparr>hasJoined = True, playerId = Some ''e'', live = True\<rparr>),
      (5, \<lparr>hasJoined = True, playerId = Some ''f'', live = True\<rparr>)]"
  by (simp add: lobby_def sixJoins_def start_defs handler_defs)

lemma timers_lobby: "timers lobby = [\<lparr>due = 600000, callback = IdleCheck\<rparr>]"
  by (simp add: lobby_def sixJoins_def start_defs handler_defs)

lemma now_lobby: "now lobby = 0"
  by (simp add: lobby_def sixJoins_def start_defs handler_defs)

lemma boundPlayer_lobby:
  "boundPlayer lobby 0 = Some (''a'', member ''a'' Blue Queen)"
  "boundPlayer lobby 1 = Some (''b'', member ''b'' Gold Queen)"
  "boundPlayer lobby 2 = Some (''c'', member ''c'' Blue Worker)"
  "boundPlayer lobby 3 = Some (''d'', member ''d'' Gold Worker)"
  "boundPlayer lobby 4 = Some (''e'', member ''e'' Blue Soldier)"
  "boundPlayer lobby 5 = Some (''f'', member ''f'' Gold Soldier)"
  by (simp_all add: boundPlayer_def gameState_lobby sockets_lobby)

lemma boundPlayer_withSnail [simp]: "boundPlayer (withSnail x w) s = boundPlayer w s"
  by (simp add: boundPlayer_def withSnail_def split: option.splits)


subsection \<open>The world after twelve berries\<close>

lemma afterTwelve_lobby: "afterTwelve = run twelveBerries lobby"
  by (simp add: afterTwelve_def lobby_def run_append)

lemma gameState_afterTwelve:
  "gameState afterTwelve =
     (gameState lobby)\<lparr>status := Ended, berryCount := \<lparr>blue = 12, gold = 0\<rparr>\<rparr>"
  by (simp add: afterTwelve_lobby twelveBerries_def handler_defs gameState_lobby sockets_lobby
      initialGameState_def member_def)

lemma sockets_afterTwelve: "sockets afterTwelve = sockets lobby"
  by (simp add: afterTwelve_lobby twelveBerries_def handler_defs gameState_lobby sockets_lobby
      initialGameState_def member_def)

lemma boundPlayer_afterTwelve: "boundPlayer afterTwelve 2 = Some (''c'', member ''c'' Blue Worker)"
  by (simp add: boundPlayer_def gameState_afterTwelve sockets_afterTwelve gameState_lobby sockets_lobby
      initialGameState_def)


subsection \<open>The world after five attacks\<close>

lemma afterAttacks_lobby: "afterAttacks = run fiveAttacks lobby"
  by (simp add: afterAttacks_def lobby_def run_append)

lemma gameState_afterAttacks:
  "gameState afterAttacks =
     (gameState lobby)\<lparr>status := Ended, blueScore := 3, goldScore := 2,
                       blueQueenAlive := False, goldQueenAlive := False\<rparr>"
  by (simp add: afterAttacks_lobby fiveAttacks_def handler_defs gameState_lobby sockets_lobby
      initialGameState_def member_def)

lemma sockets_afterAttacks: "sockets afterAttacks = sockets lobby"
  by (simp add: afterAttacks_lobby fiveAttacks_def handler_defs gameState_lobby sockets_lobby
      initialGameState_def member_def)

lemma boundPlayer_afterAttacks:
  "boundPlayer afterAttacks 5 = Some (''f'', member ''f'' Gold Soldier)"
  by (simp add: boundPlayer_def gameState_afterAttacks sockets_afterAttacks gameState_lobby
      sockets_lobby initialGameState_def)

lemma boundPlayer_withScores [simp]: "boundPlayer (withScores b g w) s = boundPlayer w s"
  by (simp add: boundPlayer_def withScores_def split: option.splits)


subsection \<open>The world after a leave\<close>

lemma afterLeave_lobby: "afterLeave = leaveGame 2 lobby"
  by (simp add: afterLeave_def lobby_def run_append deliver_def sockets_lobby [unfolded lobby_def])

lemma gameState_afterLeave:
  "gameState afterLeave =
     (gameState lobby)\<lparr>players :=
        [(''a'', member ''a'' Blue Queen), (''b'', member ''b'' Gold Queen),
         (''c'', (member ''c'' Blue Worker)\<lparr>isActive := False\<rparr>), (''d'', member ''d'' Gold Worker),
         (''e'', member ''e'' Blue Soldier), (''f'', member ''f'' Gold Soldier)]\<rparr>"
  by (simp add: afterLeave_lobby leaveGame_def boundMember_Entry [OF boundPlayer_lobby(3)]
      gameState_lobby)

lemma sockets_afterLeave: "sockets afterLeave = sockets lobby"
  by (simp add: afterLeave_lobby leaveGame_def boundMember_Entry [OF boundPlayer_lobby(3)]
      setTimeout_def broadcastState_def
      emit_def Let_def)

lemma boundPlayer_afterLeave:
  "boundPlayer afterLeave 2 = Some (''c'', (member ''c'' Blue Worker)\<lparr>isActive := False\<rparr>)"
  by (simp add: boundPlayer_def gameState_afterLeave sockets_afterLeave sockets_lobby)

subsection \<open>Roster lookups\<close>

lemma boundPlayer_in_roster:
  "boundPlayer w s = Some (k, p) \<Longrightarrow> map_of (players (gameState w)) k = Some p"
  by (auto simp: boundPlayer_def split: option.splits if_splits)

lemma update_present_keys:
  "map_of ps k = Some p \<Longrightarrow> map fst (AList.update k v ps) = map fst ps"
  by (auto simp: update_keys dest: map_of_SomeD intro: rev_image_eqI)


lemma update_map_entry_same:
  "AList.update k v (AList.map_entry k f ps) = AList.update k v ps"
  by (induction ps) auto


subsection \<open>The fallback branch of reconnectPlayer\<close>

lemma reconnectPlayer_fallback:
  assumes "map_of (sockets w) s = Some c"
    and "lookupPlayer (gameState w) k = None"
  shows "reconnectPlayer s k uuid w = joinGame s uuid (unjoined s w) \<and>
         players (gameState (reconnectPlayer s k uuid w)) =
           AList.update uuid
             \<lparr>id_p = uuid,
              position = (if fst (assignTeamAndRole (players (gameState w))) = Blue
                          then (-15, 5, 0) else (15, 5, 0)),
              rotation = (0, 0, 0),
              team = fst (assignTeamAndRole (players (gameState w))),
              role = snd (assignTeamAndRole (players (gameState w))),
              isActive = True\<rparr>
             (players (gameState w)) \<and>
         status (gameState (reconnectPlayer s k uuid w)) =
           (if status (gameState w) = Waiting \<and>
               2 \<le> length (players (gameState (reconnectPlayer s k uuid w)))
            then Playing else status (gameState w)) \<and>
         gameState (reconnectPlayer s k uuid w) =
           (gameState w)\<lparr>players := players (gameState (reconnectPlayer s k uuid w)),
                          status := status (gameState (reconnectPlayer s k uuid w))\<rparr> \<and>
         sockets (reconnectPlayer s k uuid w) =
           AList.update s (c\<lparr>playerId := Some uuid, hasJoined := True\<rparr>) (sockets w) \<and>
         timers (reconnectPlayer s k uuid w) = timers w \<and>
         sent w (reconnectPlayer s k uuid w) =
           [(ToSocket s, PlayerAssigned uuid (fst (assignTeamAndRole (players (gameState w))))
                           (snd (assignTeamAndRole (players (gameState w))))),
            (ToAll, GameStateMsg (gameState (reconnectPlayer s k uuid w)))]"
proof -
  obtain tm rl where a: "assignTeamAndRole (players (gameState w)) = (tm, rl)"
    by (cases "assignTeamAndRole (players (gameState w))")
  have look: "(if k = [] then None else lookupPlayer (gameState w) k) = None"
    using assms(2) by simp
  have r: "reconnectPlayer s k uuid w =
      broadcastState (emit (ToSocket s) (PlayerAssigned uuid tm rl)
        (w\<lparr>gameState :=
             (if status (gameState w) = Waiting \<and>
                 2 \<le> length (AList.update uuid
                        \<lparr>id_p = uuid, position = (if tm = Blue then (-15, 5, 0) else (15, 5, 0)),
                         rotation = (0, 0, 0), team = tm, role = rl, isActive = True\<rparr>
                        (players (gameState w)))
              then (gameState w)\<lparr>players := AList.update uuid
                        \<lparr>id_p = uuid, position = (if tm = Blue then (-15, 5, 0) else (15, 5, 0)),
                         rotation = (0, 0, 0), team = tm, role = rl, isActive = True\<rparr>
                        (players (gameState w)), status := Playing\<rparr>
              else (gameState w)\<lparr>players := AList.update uuid
                        \<lparr>id_p = uuid, position = (if tm = Blue then (-15, 5, 0) else (15, 5, 0)),
                         rotation = (0, 0, 0), team = tm, role = rl, isActive = True\<rparr>
                        (players (gameState w))\<rparr>),
           sockets := AList.update s (c\<lparr>playerId := Some uuid, hasJoined := True\<rparr>) (sockets w)\<rparr>))"
    unfolding reconnectPlayer_def using assms(1) look a by (simp add: Let_def)
  have swap: "c\<lparr>playerId := Some uuid, hasJoined := True\<rparr> =
              c\<lparr>hasJoined := True, playerId := Some uuid\<rparr>"
    by simp
  have j: "joinGame s uuid (unjoined s w) = reconnectPlayer s k uuid w"
    unfolding r swap
    using assms(1) a
    by (simp add: joinGame_def unjoined_def map_of_map_entry truthy_def Let_def
        update_map_entry_same)
  have rest: "players (gameState (reconnectPlayer s k uuid w)) =
           AList.update uuid
             \<lparr>id_p = uuid, position = (if tm = Blue then (-15, 5, 0) else (15, 5, 0)),
              rotation = (0, 0, 0), team = tm, role = rl, isActive = True\<rparr>
             (players (gameState w))"
    "sockets (reconnectPlayer s k uuid w) =
           AList.update s (c\<lparr>playerId := Some uuid, hasJoined := True\<rparr>) (sockets w)"
    "timers (reconnectPlayer s k uuid w) = timers w"
    "sent w (reconnectPlayer s k uuid w) =
           [(ToSocket s, PlayerAssigned uuid tm rl),
            (ToAll, GameStateMsg (gameState (reconnectPlayer s k uuid w)))]"
    by (simp_all add: r sent_defs emit_def broadcastState_def)
  have st: "status (gameState (reconnectPlayer s k uuid w)) =
           (if status (gameState w) = Waiting \<and>
               2 \<le> length (players (gameState (reconnectPlayer s k uuid w)))
            then Playing else status (gameState w))"
    unfolding rest(1) by (simp add: r)
  have gs: "gameState (reconnectPlayer s k uuid w) =
           (gameState w)\<lparr>players := players (gameState (reconnectPlayer s k uuid w)),
                          status := status (gameState (reconnectPlayer s k uuid w))\<rparr>"
    by (simp add: r)
  from j rest st gs a show ?thesis by simp
qed



subsection \<open>Connections without a roster entry\<close>

lemma deliver_noop: "h w = w \<Longrightarrow> deliver s h w = w"
  by (simp add: deliver_def split: option.splits)

lemma unbound_noops:
  assumes "boundMember w s = None"
  shows "playerUpdate s pos rot w = w" "collectBerry s w = w" "moveSnail s w = w"
    "attackQueen s w = w" "leaveGame s w = w" "disconnect s w = w"
  using assms
  by (simp_all add: playerUpdate_def collectBerry_def moveSnail_def attackQueen_def
      leaveGame_def disconnect_def)

lemma joined_joinGame_noop:
  "map_of (sockets w) s = Some c \<Longrightarrow> hasJoined c \<Longrightarrow> joinGame s uuid w = w"
  by (simp add: joinGame_def)

lemma stranded_step:
  assumes "boundMember w s = None" and "map_of (sockets w) s = Some c" and "hasJoined c"
    and "ownGameplay s e"
  shows "step e w = w"
  using assms by (cases e) (simp_all add: deliver_noop unbound_noops joined_joinGame_noop)

lemma stranded_run:
  assumes "boundMember w s = None" and "map_of (sockets w) s = Some c" and "hasJoined c"
    and "list_all (ownGameplay s) evs"
  shows "run evs w = w"
  using assms(4)
proof (induction evs)
  case Nil
  show ?case by simp
next
  case (Cons e evs)
  then have "step e w = w" using assms(1-3) by (simp add: stranded_step)
  with Cons show ?case by simp
qed


subsection \<open>Timers and the clock\<close>

lemma now_emit [simp]: "now (emit a m w) = now w"
  by (simp add: emit_def)

lemma now_broadcastState [simp]: "now (broadcastState w) = now w"
  by (simp add: broadcastState_def)

lemma now_setTimeout [simp]: "now (setTimeout cb d w) = now w"
  by (simp add: setTimeout_def)

lemma timers_setTimeout [simp]:
  "timers (setTimeout cb d w) = timers w @ [\<lparr>due = now w + d, callback = cb\<rparr>]"
  by (simp add: setTimeout_def)

lemma sockets_emit [simp]: "sockets (emit a m w) = sockets w"
  by (simp add: emit_def)

lemma sockets_broadcastState [simp]: "sockets (broadcastState w) = sockets w"
  by (simp add: broadcastState_def)

lemma sockets_setTimeout [simp]: "sockets (setTimeout cb d w) = sockets w"
  by (simp add: setTimeout_def)

text \<open>No handler cancels a timer or moves the clock.\<close>

lemma handlers_keep_timers:
  "now (joinGame s uuid w) = now w \<and> set (timers w) \<subseteq> set (timers (joinGame s uuid w))"
  "now (playerUpdate s pos rot w) = now w \<and> set (timers w) \<subseteq> set (timers (playerUpdate s pos rot w))"
  "now (collectBerry s w) = now w \<and> set (timers w) \<subseteq> set (timers (collectBerry s w))"
  "now (moveSnail s w) = now w \<and> set (timers w) \<subseteq> set (timers (moveSnail s w))"
  "now (attackQueen s w) = now w \<and> set (timers w) \<subseteq> set (timers (attackQueen s w))"
  "now (disconnect s w) = now w \<and> set (timers w) \<subseteq> set (timers (disconnect s w))"
  "now (leaveGame s w) = now w \<and> set (timers w) \<subseteq> set (timers (leaveGame s w))"
  "now (reconnectPlayer s k uuid w) = now w \<and> set (timers w) \<subseteq> set (timers (reconnectPlayer s k uuid w))"
  "now (connect s w) = now w \<and> set (timers w) \<subseteq> set (timers (connect s w))"
  "now (closeTransport s w) = now w \<and> timers (closeTransport s w) = timers w"
  by (auto simp: joinGame_def playerUpdate_def collectBerry_def moveSnail_def attackQueen_def
      disconnect_def leaveGame_def reconnectPlayer_def connect_def closeTransport_def Let_def
      split: option.splits prod.splits if_splits found.splits)

lemma deliver_keeps_timers:
  assumes "\<And>w. now (h w) = now w \<and> set (timers w) \<subseteq> set (timers (h w))"
  shows "now (deliver s h w) = now w \<and> set (timers w) \<subseteq> set (timers (deliver s h w))"
  using assms by (simp add: deliver_def split: option.splits)

lemma now_runCallback [simp]: "now (runCallback cb w) = now w"
  by (cases cb) (auto simp: idleCheck_def resetGame_def split: option.splits found.splits)

lemma now_fire: "now (fire tm w) = max (now w) (due tm)"
  by (simp add: fire_def Let_def)

lemma now_advance: "now (advance t w) = max (now w) t"
proof (induction t w rule: advance.induct)
  case (1 t w)
  show ?case
  proof (cases "earliest (timers w)")
    case None
    then show ?thesis by (simp add: advance.simps)
  next
    case (Some tm)
    show ?thesis
    proof (cases "due tm \<le> t")
      case True
      with Some 1 [OF Some True] show ?thesis
        by (simp add: advance.simps [of t w] now_fire)
    next
      case False
      with Some show ?thesis by (simp add: advance.simps [of t w])
    qed
  qed
qed

lemma fire_keeps_other:
  assumes "tm \<in> set (timers w)" and "tm \<noteq> tm0"
  shows "tm \<in> set (timers (fire tm0 w))"
  using assms by (simp add: timers_fire in_set_remove1)

lemma advance_keeps_later:
  "tm \<in> set (timers w) \<Longrightarrow> t < due tm \<Longrightarrow> tm \<in> set (timers (advance t w))"
proof (induction t w rule: advance.induct)
  case (1 t w)
  show ?case
  proof (cases "earliest (timers w)")
    case None
    with 1 show ?thesis by (simp add: advance.simps [of t w])
  next
    case (Some tm0)
    show ?thesis
    proof (cases "due tm0 \<le> t")
      case True
      with 1(3) have "tm \<noteq> tm0" by auto
      with 1(2) have "tm \<in> set (timers (fire tm0 w))" by (rule fire_keeps_other)
      from 1(1) [OF Some True this 1(3)] Some True show ?thesis
        by (simp add: advance.simps [of t w])
    next
      case False
      with Some 1 show ?thesis by (simp add: advance.simps [of t w])
    qed
  qed
qed

lemma step_keeps_timer:
  "now w \<le> now (step e w) \<and>
   (tm \<in> set (timers w) \<and> now (step e w) < due tm \<longrightarrow> tm \<in> set (timers (step e w)))"
proof (cases e)
  case (Elapse dt)
  then show ?thesis
    by (auto simp: now_advance intro: advance_keeps_later)
next
  case (Disconnect s)
  have "now (disconnect s (closeTransport s w')) = now w' \<and>
        set (timers w') \<subseteq> set (timers (disconnect s (closeTransport s w')))" for w'
    using handlers_keep_timers(6) [of s "closeTransport s w'"] handlers_keep_timers(10) [of s w']
    by simp
  from deliver_keeps_timers [of "\<lambda>w'. disconnect s (closeTransport s w')" s w, OF this] Disconnect
  show ?thesis by auto
qed (use handlers_keep_timers deliver_keeps_timers in \<open>auto simp: subset_iff\<close>)

lemma run_keeps_timer:
  "now w \<le> now (run evs w) \<and>
   (tm \<in> set (timers w) \<and> now (run evs w) < due tm \<longrightarrow> tm \<in> set (timers (run evs w)))"
proof (induction evs arbitrary: w)
  case Nil
  show ?case by simp
next
  case (Cons e evs)
  from step_keeps_timer [of w e tm] Cons [of "step e w"] show ?case
    by (auto simp: le_less_trans)
qed


lemma earliest_None: "earliest tms = None \<Longrightarrow> tms = []"
  by (cases tms) (auto split: option.splits if_splits)

lemma earliest_min: "earliest tms = Some m \<Longrightarrow> x \<in> set tms \<Longrightarrow> due m \<le> due x"
  by (induction tms arbitrary: m) (auto split: option.splits if_splits dest: earliest_None)

lemma advance_remaining: "tm \<in> set (timers (advance t w)) \<Longrightarrow> t < due tm"
proof (induction t w rule: advance.induct)
  case (1 t w)
  show ?case
  proof (cases "earliest (timers w)")
    case None
    then have "timers w = []" by (rule earliest_None)
    with 1(2) None show ?thesis by (simp add: advance.simps [of t w])
  next
    case (Some tm0)
    show ?thesis
    proof (cases "due tm0 \<le> t")
      case True
      with Some 1 show ?thesis by (simp add: advance.simps [of t w])
    next
      case False
      with Some 1(2) have "tm \<in> set (timers w)" by (simp add: advance.simps [of t w])
      with Some have "due tm0 \<le> due tm" by (rule earliest_min)
      with False show ?thesis by simp
    qed
  qed
qed

lemma emitted_fire: "\<exists>ms. emitted (fire tm w) = emitted w @ ms"
  by (cases "callback tm")
     (auto simp: fire_def Let_def idleCheck_def resetGame_def emitted_broadcastState
      split: option.splits found.splits)

lemma emitted_advance: "\<exists>ms. emitted (advance t w) = emitted w @ ms"
proof (induction t w rule: advance.induct)
  case (1 t w)
  show ?case
  proof (cases "earliest (timers w)")
    case None
    then show ?thesis by (simp add: advance.simps [of t w])
  next
    case (Some tm0)
    show ?thesis
    proof (cases "due tm0 \<le> t")
      case True
      from 1 [OF Some True] obtain m2 where "emitted (advance t (fire tm0 w)) = emitted (fire tm0 w) @ m2"
        by blast
      moreover obtain m1 where "emitted (fire tm0 w) = emitted w @ m1"
        using emitted_fire by blast
      ultimately show ?thesis using Some True by (simp add: advance.simps [of t w])
    next
      case False
      with Some show ?thesis by (simp add: advance.simps [of t w])
    qed
  qed
qed

lemma sent_mono:
  assumes "emitted w1 = emitted w @ ms"
  shows "set (sent w1 w2) \<subseteq> set (sent w w2)"
  using assms by (simp add: sent_def set_drop_subset_set_drop)

lemma runCallback_keeps_alive:
  "queenAlive q (gameState w) \<Longrightarrow> queenAlive q (gameState (runCallback cb w))"
  by (cases cb; cases q)
     (auto simp: queenAlive_def idleCheck_def resetGame_def initialGameState_def
      split: option.splits found.splits)

lemma fire_keeps_alive:
  "queenAlive q (gameState w) \<Longrightarrow> queenAlive q (gameState (fire tm w))"
  by (simp add: fire_def Let_def runCallback_keeps_alive)

lemma advance_keeps_alive:
  "queenAlive q (gameState w) \<Longrightarrow> queenAlive q (gameState (advance t w))"
proof (induction t w rule: advance.induct)
  case (1 t w)
  show ?case
  proof (cases "earliest (timers w)")
    case None
    with 1(2) show ?thesis by (simp add: advance.simps [of t w])
  next
    case (Some tm0)
    show ?thesis
    proof (cases "due tm0 \<le> t")
      case True
      from 1(1) [OF Some True fire_keeps_alive [OF 1(2)]] Some True show ?thesis
        by (simp add: advance.simps [of t w])
    next
      case False
      with Some 1(2) show ?thesis by (simp add: advance.simps [of t w])
    qed
  qed
qed

lemma fire_respawn:
  assumes "callback tm = RespawnQueen q"
  shows "queenAlive q (gameState (fire tm w)) \<and>
         timers (fire tm w) = remove1 tm (timers w) \<and>
         sent w (fire tm w) = [(ToAll, GameStateMsg (gameState (fire tm w)))]"
  using assms by (cases q) (simp_all add: fire_def Let_def queenAlive_def sent_defs)

lemma fire_respawn_frame:
  assumes "callback tm = RespawnQueen q"
  shows "gameState (fire tm w) =
           (if q = Blue then (gameState w)\<lparr>blueQueenAlive := True\<rparr>
            else (gameState w)\<lparr>goldQueenAlive := True\<rparr>) \<and>
         sockets (fire tm w) = sockets w \<and>
         sent w (fire tm w) = [(ToAll, GameStateMsg (gameState (fire tm w)))]"
  using assms by (cases q) (simp_all add: fire_def Let_def sent_defs)

lemma advance_fires_respawn:
  "tm \<in> set (timers w) \<Longrightarrow> due tm \<le> t \<Longrightarrow> callback tm = RespawnQueen q \<Longrightarrow>
   queenAlive q (gameState (advance t w)) \<and>
   (\<exists>gs. (ToAll, GameStateMsg gs) \<in> set (sent w (advance t w)) \<and> queenAlive q gs)"
proof (induction t w rule: advance.induct)
  case (1 t w)
  from 1(2) obtain tm0 where e: "earliest (timers w) = Some tm0"
    by (cases "earliest (timers w)") (auto dest: earliest_None)
  from e 1(2) have "due tm0 \<le> due tm" by (rule earliest_min)
  with 1(3) have d: "due tm0 \<le> t" by simp
  have adv: "advance t w = advance t (fire tm0 w)"
    using e d by (simp add: advance.simps [of t w])
  obtain m1 where m1: "emitted (fire tm0 w) = emitted w @ m1"
    using emitted_fire by blast
  show ?case
  proof (cases "tm0 = tm")
    case True
    from fire_respawn [OF 1(4), of w]
    have a: "queenAlive q (gameState (fire tm w))"
      and s: "sent w (fire tm w) = [(ToAll, GameStateMsg (gameState (fire tm w)))]"
      by simp_all
    obtain m2 where m2: "emitted (advance t (fire tm w)) = emitted (fire tm w) @ m2"
      using emitted_advance by blast
    from s m1 True have "m1 = [(ToAll, GameStateMsg (gameState (fire tm w)))]"
      by (simp add: sent_def)
    with m1 m2 True have "(ToAll, GameStateMsg (gameState (fire tm w))) \<in> set (sent w (advance t (fire tm w)))"
      by (simp add: sent_def)
    with a advance_keeps_alive [OF a, of t] adv True show ?thesis by auto
  next
    case False
    with 1(2) have "tm \<in> set (timers (fire tm0 w))" by (simp add: fire_keeps_other)
    from 1(1) [OF e d this 1(3) 1(4)] sent_mono [OF m1, of "advance t (fire tm0 w)"] adv
    show ?thesis by auto
  qed
qed


lemma attackQueen_schedules:
  assumes "boundPlayer w s = Some (k, p)" and "role p = Soldier"
  shows "timers (attackQueen s w) =
           timers w @ [\<lparr>due = now w + 5000, callback = RespawnQueen (otherTeam (team p))\<rparr>]"
  using boundMember_Entry [OF assms(1)] assms(2)
  by (cases "team p") (simp_all add: attackQueen_def Let_def otherTeam_def)


subsection \<open>Sessions per player\<close>

lemma oneHolder_bind:
  assumes "oneHolder m"
    and "\<And>s' c'. m s' = Some c' \<Longrightarrow> s' \<noteq> s \<Longrightarrow> live c' \<Longrightarrow> playerId c' \<noteq> playerId c"
  shows "oneHolder (m(s \<mapsto> c))"
  using assms unfolding oneHolder_def
  by (auto split: if_splits)

lemma oneHolder_release:
  assumes "oneHolder m" and "playerId c = None \<or> \<not> live c"
  shows "oneHolder (m(s \<mapsto> c))"
  using assms unfolding oneHolder_def
  by (auto split: if_splits)

lemma oneHolder_map_entry:
  assumes "oneHolder (map_of al)" and "\<And>c. playerId (f c) = None \<or> \<not> live (f c)"
  shows "oneHolder (map_of (AList.map_entry s f al))"
proof (cases "map_of al s")
  case None
  then have "map_of (AList.map_entry s f al) = map_of al"
    by (auto simp: map_of_map_entry)
  with assms show ?thesis by simp
next
  case (Some c)
  then have "map_of (AList.map_entry s f al) = (map_of al)(s \<mapsto> f c)"
    by (auto simp: map_of_map_entry)
  with assms show ?thesis by (simp add: oneHolder_release)
qed

lemma not_held_elsewhere:
  assumes "distinct (map fst (sockets w))" and "\<not> heldElsewhere w s k"
    and "map_of (sockets w) s' = Some c'" and "s' \<noteq> s" and "live c'"
  shows "playerId c' \<noteq> Some k"
proof
  assume "playerId c' = Some k"
  moreover from assms(3) have "(s', c') \<in> set (sockets w)" by (rule map_of_SomeD)
  ultimately have "s' \<in> set (holders k w)"
    using assms(5) by (force simp: holders_def)
  with assms(2,4) show False by (auto simp: heldElsewhere_def list_ex_iff)
qed


lemma sessionsOK_bind:
  assumes ok: "sessionsOK w" and free: "\<not> heldElsewhere w s k" and k: "playerId c' = Some k"
    and upd: "sockets w' = AList.update s c' (sockets w)"
  shows "sessionsOK w'"
proof -
  from ok have d: "distinct (map fst (sockets w))" and one: "oneHolder (map_of (sockets w))"
    by (simp_all add: sessionsOK_def)
  have "oneHolder ((map_of (sockets w))(s \<mapsto> c'))"
    using one
  proof (rule oneHolder_bind)
    fix s' c
    assume "map_of (sockets w) s' = Some c" "s' \<noteq> s" "live c"
    with d free have "playerId c \<noteq> Some k" by (rule not_held_elsewhere)
    with k show "playerId c \<noteq> playerId c'" by simp
  qed
  with d upd show ?thesis
    by (simp add: sessionsOK_def update_conv' distinct_update)
qed

lemma sessionsOK_map_entry:
  assumes "sessionsOK w" and "\<And>c. playerId (f c) = None \<or> \<not> live (f c)"
    and "sockets w' = AList.map_entry s f (sockets w)"
  shows "sessionsOK w'"
  using assms by (simp add: sessionsOK_def oneHolder_map_entry distinct_map_entry)

lemma sessionsOK_same: "sessionsOK w \<Longrightarrow> sockets w' = sockets w \<Longrightarrow> sessionsOK w'"
  by (simp add: sessionsOK_def)

lemma sessionsOK_connect: "sessionsOK w \<Longrightarrow> sessionsOK (connect s w)"
proof -
  assume ok: "sessionsOK w"
  show ?thesis
  proof (cases "map_of (sockets w) s")
    case (Some c)
    with ok show ?thesis by (simp add: connect_def)
  next
    case None
    then have fresh: "s \<notin> fst ` set (sockets w)" by (simp add: map_of_eq_None_iff)
    have m: "map_of (sockets w @ [(s, \<lparr>hasJoined = False, playerId = None, live = True\<rparr>)]) =
             (map_of (sockets w))(s \<mapsto> \<lparr>hasJoined = False, playerId = None, live = True\<rparr>)"
      using None by (auto simp: map_add_def fun_eq_iff split: option.splits)
    from ok have "oneHolder ((map_of (sockets w))(s \<mapsto> \<lparr>hasJoined = False, playerId = None, live = True\<rparr>))"
      by (simp add: sessionsOK_def oneHolder_release)
    with ok fresh None m show ?thesis
      by (simp add: connect_def sessionsOK_def)
  qed
qed

lemma sockets_unchanged:
  "sockets (playerUpdate s pos rot w) = sockets w"
  "sockets (collectBerry s w) = sockets w"
  "sockets (moveSnail s w) = sockets w"
  "sockets (attackQueen s w) = sockets w"
  "sockets (disconnect s w) = sockets w"
  "sockets (leaveGame s w) = sockets w"
proof -
  show "sockets (playerUpdate s pos rot w) = sockets w"
    by (cases "boundMember w s") (auto simp: playerUpdate_def Let_def split: found.splits)
  show "sockets (collectBerry s w) = sockets w"
    by (cases "boundMember w s") (auto simp: collectBerry_def Let_def split: found.splits)
  show "sockets (moveSnail s w) = sockets w"
    by (cases "boundMember w s") (auto simp: moveSnail_def Let_def split: found.splits)
  show "sockets (attackQueen s w) = sockets w"
    by (cases "boundMember w s") (auto simp: attackQueen_def Let_def split: found.splits)
  show "sockets (disconnect s w) = sockets w"
    by (cases "boundMember w s") (auto simp: disconnect_def Let_def split: found.splits)
  show "sockets (leaveGame s w) = sockets w"
    by (cases "boundMember w s") (auto simp: leaveGame_def Let_def split: found.splits)
qed

lemma sessionsOK_joinGame:
  assumes "sessionsOK w" and "\<not> heldElsewhere w s uuid"
  shows "sessionsOK (joinGame s uuid w)"
proof (cases "map_of (sockets w) s")
  case None
  with assms(1) show ?thesis by (simp add: joinGame_def)
next
  case (Some c)
  show ?thesis
  proof (cases "hasJoined c \<or> truthy (playerId c)")
    case True
    with Some assms(1) show ?thesis by (simp add: joinGame_def)
  next
    case False
    have e: "sockets (joinGame s uuid w) =
            AList.update s (c\<lparr>hasJoined := True, playerId := Some uuid\<rparr>) (sockets w)"
      using Some False by (simp add: joinGame_def Let_def split: prod.splits)
    show ?thesis by (rule sessionsOK_bind [OF assms _ e]) simp
  qed
qed

lemma sessionsOK_reconnectPlayer:
  assumes "sessionsOK w" and "bindsTo (ReconnectPlayer s k uuid) w = Some (s, q)"
    and "\<not> heldElsewhere w s q"
  shows "sessionsOK (reconnectPlayer s k uuid w)"
proof (cases "map_of (sockets w) s")
  case None
  with assms(1) show ?thesis by (simp add: reconnectPlayer_def)
next
  case (Some c)
  have e: "sockets (reconnectPlayer s k uuid w) =
          AList.update s (c\<lparr>playerId := Some q, hasJoined := True\<rparr>) (sockets w)"
    using Some assms(2)
    by (auto simp: reconnectPlayer_def Let_def
        split: option.splits prod.splits if_splits found.splits)
  show ?thesis by (rule sessionsOK_bind [OF assms(1,3) _ e]) simp
qed

lemma sessionsOK_deliver:
  "sessionsOK w \<Longrightarrow> (sessionsOK w \<Longrightarrow> sessionsOK (h w)) \<Longrightarrow> sessionsOK (deliver s h w)"
  by (simp add: deliver_def split: option.splits)

lemma sessionsOK_runCallback: "sessionsOK w \<Longrightarrow> sessionsOK (runCallback cb w)"
proof (cases cb)
  case (LeaveSweep s k)
  assume ok: "sessionsOK w"
  show ?thesis
  proof (cases "lookupPlayer (gameState w) k")
    case None
    with ok LeaveSweep show ?thesis by simp
  next
    case (Some f)
    have e: "sockets (runCallback cb w) =
           AList.map_entry s (\<lambda>c. c\<lparr>playerId := None, hasJoined := False\<rparr>) (sockets w)"
      using Some LeaveSweep by (cases f) simp_all
    show ?thesis by (rule sessionsOK_map_entry [OF ok _ e]) simp
  qed
qed (auto simp: idleCheck_def resetGame_def sessionsOK_def split: option.splits found.splits)

lemma sessionsOK_fire: "sessionsOK w \<Longrightarrow> sessionsOK (fire tm w)"
proof -
  assume ok: "sessionsOK w"
  have "sessionsOK (w\<lparr>timers := x, now := y\<rparr>)" for x y
    using ok by (rule sessionsOK_same) simp
  then show ?thesis by (simp add: fire_def Let_def sessionsOK_runCallback)
qed

lemma sessionsOK_advance: "sessionsOK w \<Longrightarrow> sessionsOK (advance t w)"
proof (induction t w rule: advance.induct)
  case (1 t w)
  show ?case
  proof (cases "earliest (timers w)")
    case None
    have "sessionsOK (w\<lparr>now := max (now w) t\<rparr>)"
      using 1(2) by (rule sessionsOK_same) simp
    with None show ?thesis by (simp add: advance.simps [of t w])
  next
    case (Some tm0)
    show ?thesis
    proof (cases "due tm0 \<le> t")
      case True
      from 1(1) [OF Some True sessionsOK_fire [OF 1(2)]] Some True show ?thesis
        by (simp add: advance.simps [of t w])
    next
      case False
      have "sessionsOK (w\<lparr>now := max (now w) t\<rparr>)"
        using 1(2) by (rule sessionsOK_same) simp
      with Some False show ?thesis by (simp add: advance.simps [of t w])
    qed
  qed
qed


lemma sessionsOK_step:
  assumes ok: "sessionsOK w"
    and free: "case bindsTo e w of None \<Rightarrow> True | Some (s, k) \<Rightarrow> \<not> heldElsewhere w s k"
  shows "sessionsOK (step e w)"
proof (cases e)
  case (Connect s)
  with ok show ?thesis by (simp add: sessionsOK_connect)
next
  case (JoinGame s uuid)
  with free have "\<not> heldElsewhere w s uuid" by simp
  with ok JoinGame show ?thesis
    by (simp add: sessionsOK_deliver sessionsOK_joinGame)
next
  case (PlayerUpdate s pos rot)
  with ok show ?thesis
    by (simp add: sessionsOK_deliver sessionsOK_same [OF _ sockets_unchanged(1)])
next
  case (CollectBerry s)
  with ok show ?thesis
    by (simp add: sessionsOK_deliver sessionsOK_same [OF _ sockets_unchanged(2)])
next
  case (MoveSnail s)
  with ok show ?thesis
    by (simp add: sessionsOK_deliver sessionsOK_same [OF _ sockets_unchanged(3)])
next
  case (AttackQueen s)
  with ok show ?thesis
    by (simp add: sessionsOK_deliver sessionsOK_same [OF _ sockets_unchanged(4)])
next
  case (Disconnect s)
  have "sessionsOK (closeTransport s w)"
    by (rule sessionsOK_map_entry [OF ok, where f = "\<lambda>c. c\<lparr>live := False\<rparr>" and s = s])
       (simp_all add: closeTransport_def)
  then have "sessionsOK (disconnect s (closeTransport s w))"
    by (rule sessionsOK_same) (rule sockets_unchanged(5))
  with ok Disconnect show ?thesis by (simp add: sessionsOK_deliver)
next
  case (LeaveGame s)
  with ok show ?thesis
    by (simp add: sessionsOK_deliver sessionsOK_same [OF _ sockets_unchanged(6)])
next
  case (ReconnectPlayer s k uuid)
  obtain q where q: "bindsTo (ReconnectPlayer s k uuid) w = Some (s, q)"
    by (cases "k \<noteq> [] \<and> lookupPlayer (gameState w) k \<noteq> None") auto
  with free ReconnectPlayer have "\<not> heldElsewhere w s q" by simp
  with ok q have "sessionsOK (reconnectPlayer s k uuid w)"
    by (rule sessionsOK_reconnectPlayer)
  with ok ReconnectPlayer show ?thesis by (simp add: sessionsOK_deliver)
next
  case (Elapse dt)
  with ok show ?thesis by (simp add: sessionsOK_advance)
qed

lemma sessionsOK_run: "sessionsOK w \<Longrightarrow> exclusive evs w \<Longrightarrow> sessionsOK (run evs w)"
proof (induction evs arbitrary: w)
  case Nil
  then show ?case by simp
next
  case (Cons e evs)
  from Cons.prems have "sessionsOK (step e w)" by (simp add: sessionsOK_step)
  with Cons show ?case by simp
qed

lemma all_equal_distinct_short:
  assumes "distinct xs" and eq: "\<And>x y. x \<in> set xs \<Longrightarrow> y \<in> set xs \<Longrightarrow> x = y"
  shows "length xs \<le> 1"
proof (cases xs)
  case Nil
  then show ?thesis by simp
next
  case (Cons a ys)
  have "ys = []"
  proof (cases ys)
    case Nil
    then show ?thesis .
  next
    case (Cons b zs)
    with \<open>xs = a # ys\<close> have "a \<in> set xs" "b \<in> set xs" by simp_all
    then have "a = b" by (rule eq)
    with assms(1) \<open>xs = a # ys\<close> Cons show ?thesis by simp
  qed
  with Cons show ?thesis by simp
qed

lemma sessionsOK_holders:
  assumes "sessionsOK w"
  shows "length (holders k w) \<le> 1"
proof (rule all_equal_distinct_short)
  from assms have d: "distinct (map fst (sockets w))" and one: "oneHolder (map_of (sockets w))"
    by (simp_all add: sessionsOK_def)
  show "distinct (holders k w)"
    unfolding holders_def using d by (rule distinct_map_filter)
  fix x y
  assume "x \<in> set (holders k w)" and "y \<in> set (holders k w)"
  then obtain cx cy where
    x: "(x, cx) \<in> set (sockets w)" "live cx" "playerId cx = Some k" and
    y: "(y, cy) \<in> set (sockets w)" "live cy" "playerId cy = Some k"
    by (auto simp: holders_def)
  from d x(1) y(1) have "map_of (sockets w) x = Some cx" "map_of (sockets w) y = Some cy"
    by simp_all
  with one x(2,3) y(2,3) show "x = y"
    unfolding oneHolder_def by blast
qed


subsection \<open>The worlds with a second arrival and after the reset\<close>

lemma gameState_secondArrives:
  "gameState secondArrives = initialGameState\<lparr>players := [(''a'', member ''a'' Blue Queen)]\<rparr>"
  by (simp add: secondArrives_def start_defs handler_defs member_def)

lemma sockets_secondArrives:
  "sockets secondArrives =
     [(0, \<lparr>hasJoined = True, playerId = Some ''a'', live = True\<rparr>),
      (1, \<lparr>hasJoined = False, playerId = None, live = True\<rparr>)]"
  by (simp add: secondArrives_def start_defs handler_defs)

lemma endedBound_lobby:
  "endedBound = run ([Connect 6, ReconnectPlayer 6 ''constructor'' ''g''] @ twelveBerries) lobby"
  by (simp add: endedBound_def lobby_def run_append)

lemma gameState_endedBound:
  "gameState endedBound =
     (gameState lobby)\<lparr>status := Ended, berryCount := \<lparr>blue = 12, gold = 0\<rparr>\<rparr>"
  by (simp add: endedBound_lobby twelveBerries_def handler_defs gameState_lobby
      sockets_lobby initialGameState_def member_def)

lemma afterReset_lobby:
  "afterReset =
     run ([Connect 6, ReconnectPlayer 6 ''constructor'' ''g''] @ twelveBerries @ [Elapse 600000])
       lobby"
  by (simp add: afterReset_def endedBound_lobby run_append)

lemma gameState_afterReset: "gameState afterReset = initialGameState"
  by (simp add: afterReset_lobby twelveBerries_def handler_defs advance.simps gameState_lobby
      sockets_lobby timers_lobby now_lobby initialGameState_def member_def)

lemma sockets_afterReset:
  "sockets afterReset =
     sockets lobby @ [(6, \<lparr>hasJoined = True, playerId = Some ''constructor'', live = True\<rparr>)]"
  by (simp add: afterReset_lobby twelveBerries_def handler_defs advance.simps gameState_lobby
      sockets_lobby timers_lobby now_lobby initialGameState_def member_def)

lemma timers_afterReset: "timers afterReset = [\<lparr>due = 1200000, callback = IdleCheck\<rparr>]"
  by (simp add: afterReset_lobby twelveBerries_def handler_defs advance.simps gameState_lobby
      sockets_lobby timers_lobby now_lobby initialGameState_def member_def)

lemma now_afterReset: "now afterReset = 600000"
  by (simp add: afterReset_lobby twelveBerries_def handler_defs advance.simps gameState_lobby
      sockets_lobby timers_lobby now_lobby initialGameState_def member_def)

lemma sockets_endedBound:
  "sockets endedBound =
     sockets lobby @ [(6, \<lparr>hasJoined = True, playerId = Some ''constructor'', live = True\<rparr>)]"
  by (simp add: endedBound_lobby twelveBerries_def handler_defs gameState_lobby
      sockets_lobby initialGameState_def member_def)

section \<open>The claims\<close>

text \<open>
  C1. For every sequence of \<open>joinGame\<close> calls that starts from the initial, empty game
  state, with no leave or disconnect in between, and after each call of it (every prefix
  \<open>take n evs\<close>), every team that has at least one member has exactly one player whose
  role is queen. The identifiers drawn from \<open>uuidv4()\<close> are pairwise distinct.
\<close>

theorem joins_keep_one_queen_per_team:
  assumes "list_all isJoin evs" and "distinct (uuidsOf evs)"
  shows "oneQueenPerTeam (gameState (run (take n evs) initialWorld))"
proof (rule run_joins_oneQueen)
  show "list_all isJoin (take n evs)" using assms(1) by (rule list_all_take)
  show "distinct (uuidsOf (take n evs))" using assms(2) by (rule uuidsOf_take)
  show "oneQueenPerTeam (gameState initialWorld)"
    by (simp add: start_defs oneQueenPerTeam_def queensOf_def teamMembers_def)
  show "set (uuidsOf (take n evs)) \<inter> fst ` set (players (gameState initialWorld)) = {}"
    by (simp add: start_defs)
qed

theorem joins_keep_one_queen_per_team_witness:
  "list_all isJoin threeJoins \<and> distinct (uuidsOf threeJoins) \<and>
   teamMembers Blue (gameState (run (take 6 threeJoins) initialWorld)) \<noteq> [] \<and>
   teamMembers Gold (gameState (run (take 6 threeJoins) initialWorld)) \<noteq> [] \<and>
   length (queensOf Blue (gameState (run (take 6 threeJoins) initialWorld))) = 1 \<and>
   length (queensOf Gold (gameState (run (take 6 threeJoins) initialWorld))) = 1"
proof -
  have h1: "list_all isJoin threeJoins" by (simp add: threeJoins_def)
  have h2: "distinct (uuidsOf threeJoins)" by (simp add: threeJoins_def uuidsOf_def)
  have m: "teamMembers Blue (gameState (run (take 6 threeJoins) initialWorld)) \<noteq> [] \<and>
           teamMembers Gold (gameState (run (take 6 threeJoins) initialWorld)) \<noteq> []"
    by (simp add: threeJoins_def start_defs teamMembers_def handler_defs)
  from joins_keep_one_queen_per_team [OF h1 h2, of 6] m h1 h2 show ?thesis
    by (simp add: oneQueenPerTeam_def)
qed

text \<open>
  C2 (as stated, refuted). The claim says that once a worker's \<open>collectBerry\<close> has raised
  the team's counter to 12, later \<open>collectBerry\<close> calls by a worker of that team emit no
  further \<open>gameOver\<close>. After six joins and twelve berries of the blue worker the game has
  ended with the counter at 12; the thirteenth call raises it to 13 and sends
  \<open>gameOver{winner: blue, reason: economic}\<close> again.
\<close>

theorem collectBerry_after_twelve_counterexample:
  "status (gameState afterTwelve) = Ended \<and>
   berryOf Blue (berryCount (gameState afterTwelve)) = 12 \<and>
   boundPlayer afterTwelve 2 = Some (''c'', member ''c'' Blue Worker) \<and>
   berryOf Blue (berryCount (gameState (collectBerry 2 afterTwelve))) = 13 \<and>
   sent afterTwelve (collectBerry 2 afterTwelve) =
     [(ToAll, GameOver Blue Economic),
      (ToAll, GameStateMsg (gameState (collectBerry 2 afterTwelve)))]"
  by (simp add: collectBerry_def boundMember_Entry [OF boundPlayer_afterTwelve]
      boundPlayer_afterTwelve gameState_afterTwelve member_def
      berryOf_def berryIncr_def sent_defs Let_def)


text \<open>
  C2 (amended). A \<open>collectBerry\<close> call by a bound worker increments the stored counter of
  the caller's team; whenever the incremented counter is 12 or more, and so on the call
  that reaches 12 and on every later call, the status is set to ended and that call emits
  exactly one \<open>gameOver\<close> with the caller's team as winner and reason economic, followed
  by the state broadcast; while the incremented counter is below 12 the status is left as
  it is and only the state is broadcast.
\<close>

theorem collectBerry_gameOver_every_time:
  assumes "boundPlayer w s = Some (k, p)" and "role p = Worker"
  shows "berryOf (team p) (berryCount (gameState (collectBerry s w))) =
           berryOf (team p) (berryCount (gameState w)) + 1 \<and>
         (12 \<le> berryOf (team p) (berryCount (gameState (collectBerry s w))) \<longrightarrow>
            status (gameState (collectBerry s w)) = Ended \<and>
            sent w (collectBerry s w) =
              [(ToAll, GameOver (team p) Economic),
               (ToAll, GameStateMsg (gameState (collectBerry s w)))]) \<and>
         (berryOf (team p) (berryCount (gameState (collectBerry s w))) < 12 \<longrightarrow>
            status (gameState (collectBerry s w)) = status (gameState w) \<and>
            sent w (collectBerry s w) = [(ToAll, GameStateMsg (gameState (collectBerry s w)))])"
  using boundMember_Entry [OF assms(1)] assms(2)
  by (cases "team p") (simp_all add: collectBerry_def Let_def berryOf_def berryIncr_def sent_defs)

theorem collectBerry_gameOver_every_time_witness:
  "boundPlayer afterTwelve 2 = Some (''c'', member ''c'' Blue Worker) \<and>
   role (member ''c'' Blue Worker) = Worker \<and>
   berryOf Blue (berryCount (gameState afterTwelve)) = 12 \<and>
   berryOf Blue (berryCount (gameState (collectBerry 2 afterTwelve))) = 13 \<and>
   status (gameState (collectBerry 2 afterTwelve)) = Ended \<and>
   sent afterTwelve (collectBerry 2 afterTwelve) =
     [(ToAll, GameOver Blue Economic),
      (ToAll, GameStateMsg (gameState (collectBerry 2 afterTwelve)))] \<and>
   boundPlayer lobby 2 = Some (''c'', member ''c'' Blue Worker) \<and>
   berryOf Blue (berryCount (gameState (collectBerry 2 lobby))) = 1 \<and>
   status (gameState (collectBerry 2 lobby)) = Playing \<and>
   sent lobby (collectBerry 2 lobby) = [(ToAll, GameStateMsg (gameState (collectBerry 2 lobby)))]"
proof -
  have r: "role (member ''c'' Blue Worker) = Worker" by (simp add: member_def)
  have t: "team (member ''c'' Blue Worker) = Blue" by (simp add: member_def)
  have v: "berryOf Blue (berryCount (gameState afterTwelve)) = 12"
    "berryOf Blue (berryCount (gameState lobby)) = 0" "status (gameState lobby) = Playing"
    by (simp_all add: gameState_afterTwelve gameState_lobby initialGameState_def berryOf_def)
  show ?thesis
    using collectBerry_gameOver_every_time [OF boundPlayer_afterTwelve r]
      collectBerry_gameOver_every_time [OF boundPlayer_lobby(3) r] r t v
    by (simp add: boundPlayer_afterTwelve boundPlayer_lobby)
qed

text \<open>
  C3. A \<open>collectBerry\<close> call from a bound player whose role is worker increments the
  berry counter of exactly the caller's team by 1 and changes no other team's counter; a
  call from a bound player whose role is not worker leaves both counters and every other
  field of the game state unchanged (the whole world is unchanged, nothing is sent).
\<close>

theorem collectBerry_by_role:
  assumes "boundPlayer w s = Some (k, p)"
  shows "(role p = Worker \<longrightarrow>
            berryOf (team p) (berryCount (gameState (collectBerry s w))) =
              berryOf (team p) (berryCount (gameState w)) + 1 \<and>
            berryOf (otherTeam (team p)) (berryCount (gameState (collectBerry s w))) =
              berryOf (otherTeam (team p)) (berryCount (gameState w))) \<and>
         (role p \<noteq> Worker \<longrightarrow> collectBerry s w = w)"
  using boundMember_Entry [OF assms]
  by (cases "team p") (simp_all add: collectBerry_def Let_def berryOf_def berryIncr_def otherTeam_def)

theorem collectBerry_by_role_witness:
  "boundPlayer lobby 2 = Some (''c'', member ''c'' Blue Worker) \<and>
   role (member ''c'' Blue Worker) = Worker \<and>
   berryOf Blue (berryCount (gameState lobby)) = 0 \<and>
   berryOf Blue (berryCount (gameState (collectBerry 2 lobby))) = 1 \<and>
   berryOf Gold (berryCount (gameState (collectBerry 2 lobby))) = 0 \<and>
   boundPlayer lobby 4 = Some (''e'', member ''e'' Blue Soldier) \<and>
   role (member ''e'' Blue Soldier) \<noteq> Worker \<and>
   collectBerry 4 lobby = lobby"
  using collectBerry_by_role [OF boundPlayer_lobby(3)] collectBerry_by_role [OF boundPlayer_lobby(5)]
  by (simp add: boundPlayer_lobby member_def otherTeam_def gameState_lobby initialGameState_def berryOf_def)



text \<open>
  C4. A \<open>moveSnail\<close> call from a bound player with role worker shifts the snail by +1 if
  the caller's team is blue and by -1 if gold, the result clamped to the range from 0 to
  100; when the result is 100 the game ends with \<open>gameOver{winner: blue, reason: snail}\<close>,
  when it is 0 it ends with \<open>gameOver{winner: gold, reason: snail}\<close>; in between the
  status stays as it was. A call from a non-worker leaves the snail and the status (indeed
  the whole world) unchanged.
\<close>

theorem moveSnail_by_role:
  assumes "boundPlayer w s = Some (k, p)"
  shows "(role p = Worker \<longrightarrow>
            snailPosition (gameState (moveSnail s w)) =
              min 100 (max 0 (snailPosition (gameState w) + (if team p = Blue then 1 else - 1))) \<and>
            0 \<le> snailPosition (gameState (moveSnail s w)) \<and>
            snailPosition (gameState (moveSnail s w)) \<le> 100 \<and>
            (snailPosition (gameState (moveSnail s w)) = 100 \<longrightarrow>
               status (gameState (moveSnail s w)) = Ended \<and>
               sent w (moveSnail s w) =
                 [(ToAll, GameOver Blue Snail), (ToAll, GameStateMsg (gameState (moveSnail s w)))]) \<and>
            (snailPosition (gameState (moveSnail s w)) = 0 \<longrightarrow>
               status (gameState (moveSnail s w)) = Ended \<and>
               sent w (moveSnail s w) =
                 [(ToAll, GameOver Gold Snail), (ToAll, GameStateMsg (gameState (moveSnail s w)))]) \<and>
            (0 < snailPosition (gameState (moveSnail s w)) \<and>
             snailPosition (gameState (moveSnail s w)) < 100 \<longrightarrow>
               status (gameState (moveSnail s w)) = status (gameState w) \<and>
               sent w (moveSnail s w) = [(ToAll, GameStateMsg (gameState (moveSnail s w)))])) \<and>
         (role p \<noteq> Worker \<longrightarrow> moveSnail s w = w)"
proof (cases "role p = Worker")
  case False
  with boundMember_Entry [OF assms] show ?thesis by (simp add: moveSnail_def)
next
  case True
  define x where "x = min 100 (max 0 (snailPosition (gameState w) + (if team p = Blue then 1 else - 1)))"
  have range: "0 \<le> x" "x \<le> 100" by (simp_all add: x_def)
  have ms: "moveSnail s w =
      broadcastState
        (if 100 \<le> x
         then emit ToAll (GameOver Blue Snail)
                (w\<lparr>gameState := (gameState w)\<lparr>snailPosition := x, status := Ended\<rparr>\<rparr>)
         else if x \<le> 0
         then emit ToAll (GameOver Gold Snail)
                (w\<lparr>gameState := (gameState w)\<lparr>snailPosition := x, status := Ended\<rparr>\<rparr>)
         else w\<lparr>gameState := (gameState w)\<lparr>snailPosition := x\<rparr>\<rparr>)"
    using boundMember_Entry [OF assms] True by (simp add: moveSnail_def Let_def x_def)
  have sn: "snailPosition (gameState (moveSnail s w)) = x"
    by (simp add: ms)
  have hi: "x = 100 \<Longrightarrow> status (gameState (moveSnail s w)) = Ended \<and>
      sent w (moveSnail s w) =
        [(ToAll, GameOver Blue Snail), (ToAll, GameStateMsg (gameState (moveSnail s w)))]"
    by (simp add: ms sent_defs)
  have lo: "x = 0 \<Longrightarrow> status (gameState (moveSnail s w)) = Ended \<and>
      sent w (moveSnail s w) =
        [(ToAll, GameOver Gold Snail), (ToAll, GameStateMsg (gameState (moveSnail s w)))]"
    by (simp add: ms sent_defs)
  have mid: "0 < x \<Longrightarrow> x < 100 \<Longrightarrow> status (gameState (moveSnail s w)) = status (gameState w) \<and>
      sent w (moveSnail s w) = [(ToAll, GameStateMsg (gameState (moveSnail s w)))]"
    by (simp add: ms sent_defs)
  from True sn range hi lo mid show ?thesis unfolding x_def [symmetric] by simp
qed

theorem moveSnail_by_role_witness:
  "boundPlayer (withSnail 99 lobby) 2 = Some (''c'', member ''c'' Blue Worker) \<and>
   role (member ''c'' Blue Worker) = Worker \<and>
   snailPosition (gameState (moveSnail 2 (withSnail 99 lobby))) = 100 \<and>
   status (gameState (withSnail 99 lobby)) = Playing \<and>
   status (gameState (moveSnail 2 (withSnail 99 lobby))) = Ended \<and>
   sent (withSnail 99 lobby) (moveSnail 2 (withSnail 99 lobby)) =
     [(ToAll, GameOver Blue Snail),
      (ToAll, GameStateMsg (gameState (moveSnail 2 (withSnail 99 lobby))))] \<and>
   boundPlayer (withSnail 1 lobby) 3 = Some (''d'', member ''d'' Gold Worker) \<and>
   role (member ''d'' Gold Worker) = Worker \<and>
   snailPosition (gameState (moveSnail 3 (withSnail 1 lobby))) = 0 \<and>
   status (gameState (moveSnail 3 (withSnail 1 lobby))) = Ended \<and>
   sent (withSnail 1 lobby) (moveSnail 3 (withSnail 1 lobby)) =
     [(ToAll, GameOver Gold Snail),
      (ToAll, GameStateMsg (gameState (moveSnail 3 (withSnail 1 lobby))))] \<and>
   snailPosition (gameState (moveSnail 2 lobby)) = 51 \<and>
   status (gameState (moveSnail 2 lobby)) = Playing \<and>
   boundPlayer lobby 0 = Some (''a'', member ''a'' Blue Queen) \<and>
   role (member ''a'' Blue Queen) \<noteq> Worker \<and>
   moveSnail 0 lobby = lobby"
proof -
  have b2: "boundPlayer (withSnail 99 lobby) 2 = Some (''c'', member ''c'' Blue Worker)"
    by (simp add: boundPlayer_lobby)
  have b3: "boundPlayer (withSnail 1 lobby) 3 = Some (''d'', member ''d'' Gold Worker)"
    by (simp add: boundPlayer_lobby)
  have s99: "snailPosition (gameState (withSnail 99 lobby)) = 99"
    and s1: "snailPosition (gameState (withSnail 1 lobby)) = 1"
    and s50: "snailPosition (gameState lobby) = 50"
    and st: "status (gameState (withSnail 99 lobby)) = Playing" "status (gameState lobby) = Playing"
    by (simp_all add: withSnail_def gameState_lobby initialGameState_def)
  show ?thesis
    using moveSnail_by_role [OF b2] moveSnail_by_role [OF b3]
      moveSnail_by_role [OF boundPlayer_lobby(3)] moveSnail_by_role [OF boundPlayer_lobby(1)]
      b2 b3 s99 s1 s50 st
    by (simp add: member_def boundPlayer_lobby)
qed

text \<open>
  C5 (as stated, refuted). The claim says that when the attacker's team's score reaches 3
  the \<open>gameOver\<close> names the attacker's team. After the blue soldier has made three kills
  the handlers keep running; the gold soldier's third kill takes the gold score from 2 to
  3, and the \<open>gameOver\<close> that call sends names blue, because the blue score is tested
  first.
\<close>

theorem attackQueen_third_gold_kill_counterexample:
  "boundPlayer afterAttacks 5 = Some (''f'', member ''f'' Gold Soldier) \<and>
   scoreOf Gold (gameState afterAttacks) = 2 \<and>
   scoreOf Gold (gameState (attackQueen 5 afterAttacks)) = 3 \<and>
   sent afterAttacks (attackQueen 5 afterAttacks) =
     [(ToAll, GameOver Blue Military),
      (ToAll, GameStateMsg (gameState (attackQueen 5 afterAttacks)))]"
  by (simp add: attackQueen_def boundMember_Entry [OF boundPlayer_afterAttacks]
      boundPlayer_afterAttacks gameState_afterAttacks member_def
      scoreOf_def sent_defs Let_def)


text \<open>
  C5 (amended). An \<open>attackQueen\<close> call from a bound player with role soldier sets the
  opposing team's queen-alive flag to false, leaves the attacker's own flag and the
  opposing score alone, and increments the attacker's own team's score by 1. Then, if the
  blue score is at least 3, the status becomes ended and
  \<open>gameOver{winner: blue, reason: military}\<close> is emitted; otherwise, if the gold score is
  at least 3, the status becomes ended and \<open>gameOver{winner: gold, reason: military}\<close>
  is emitted; otherwise the status is unchanged. So when the attacker's score reaches 3
  the winner announced is the attacker's team if the attacker is blue, or if the attacker
  is gold and the blue score is below 3. A call from a non-soldier changes nothing.
\<close>

theorem attackQueen_by_role:
  assumes "boundPlayer w s = Some (k, p)"
  shows "(role p = Soldier \<longrightarrow>
            \<not> queenAlive (otherTeam (team p)) (gameState (attackQueen s w)) \<and>
            queenAlive (team p) (gameState (attackQueen s w)) = queenAlive (team p) (gameState w) \<and>
            scoreOf (team p) (gameState (attackQueen s w)) = scoreOf (team p) (gameState w) + 1 \<and>
            scoreOf (otherTeam (team p)) (gameState (attackQueen s w)) =
              scoreOf (otherTeam (team p)) (gameState w) \<and>
            (3 \<le> blueScore (gameState (attackQueen s w)) \<longrightarrow>
               status (gameState (attackQueen s w)) = Ended \<and>
               sent w (attackQueen s w) =
                 [(ToAll, GameOver Blue Military),
                  (ToAll, GameStateMsg (gameState (attackQueen s w)))]) \<and>
            (blueScore (gameState (attackQueen s w)) < 3 \<and>
             3 \<le> goldScore (gameState (attackQueen s w)) \<longrightarrow>
               status (gameState (attackQueen s w)) = Ended \<and>
               sent w (attackQueen s w) =
                 [(ToAll, GameOver Gold Military),
                  (ToAll, GameStateMsg (gameState (attackQueen s w)))]) \<and>
            (blueScore (gameState (attackQueen s w)) < 3 \<and>
             goldScore (gameState (attackQueen s w)) < 3 \<longrightarrow>
               status (gameState (attackQueen s w)) = status (gameState w) \<and>
               sent w (attackQueen s w) = [(ToAll, GameStateMsg (gameState (attackQueen s w)))])) \<and>
         (role p \<noteq> Soldier \<longrightarrow> attackQueen s w = w)"
proof (cases "role p = Soldier")
  case False
  with boundMember_Entry [OF assms] show ?thesis by (simp add: attackQueen_def)
next
  case True
  show ?thesis
  proof (cases "team p")
    case Blue
    with boundMember_Entry [OF assms] True show ?thesis
      by (simp add: attackQueen_def Let_def queenAlive_def scoreOf_def otherTeam_def sent_defs)
  next
    case Gold
    with boundMember_Entry [OF assms] True show ?thesis
      by (simp add: attackQueen_def Let_def queenAlive_def scoreOf_def otherTeam_def sent_defs)
  qed
qed

theorem attackQueen_by_role_witness:
  "boundPlayer lobby 4 = Some (''e'', member ''e'' Blue Soldier) \<and>
   role (member ''e'' Blue Soldier) = Soldier \<and>
   \<not> queenAlive Gold (gameState (attackQueen 4 lobby)) \<and>
   queenAlive Blue (gameState (attackQueen 4 lobby)) \<and>
   scoreOf Blue (gameState (attackQueen 4 lobby)) = 1 \<and>
   scoreOf Gold (gameState (attackQueen 4 lobby)) = 0 \<and>
   status (gameState (attackQueen 4 lobby)) = Playing \<and>
   sent lobby (attackQueen 4 lobby) = [(ToAll, GameStateMsg (gameState (attackQueen 4 lobby)))] \<and>
   blueScore (gameState (attackQueen 4 (withScores 2 0 lobby))) = 3 \<and>
   status (gameState (attackQueen 4 (withScores 2 0 lobby))) = Ended \<and>
   sent (withScores 2 0 lobby) (attackQueen 4 (withScores 2 0 lobby)) =
     [(ToAll, GameOver Blue Military),
      (ToAll, GameStateMsg (gameState (attackQueen 4 (withScores 2 0 lobby))))] \<and>
   goldScore (gameState (attackQueen 5 (withScores 0 2 lobby))) = 3 \<and>
   status (gameState (attackQueen 5 (withScores 0 2 lobby))) = Ended \<and>
   sent (withScores 0 2 lobby) (attackQueen 5 (withScores 0 2 lobby)) =
     [(ToAll, GameOver Gold Military),
      (ToAll, GameStateMsg (gameState (attackQueen 5 (withScores 0 2 lobby))))] \<and>
   boundPlayer lobby 2 = Some (''c'', member ''c'' Blue Worker) \<and>
   role (member ''c'' Blue Worker) \<noteq> Soldier \<and>
   attackQueen 2 lobby = lobby"
proof -
  have b4: "boundPlayer (withScores 2 0 lobby) 4 = Some (''e'', member ''e'' Blue Soldier)"
    and b5: "boundPlayer (withScores 0 2 lobby) 5 = Some (''f'', member ''f'' Gold Soldier)"
    by (simp_all add: boundPlayer_lobby)
  have v: "blueScore (gameState lobby) = 0" "goldScore (gameState lobby) = 0"
    "blueQueenAlive (gameState lobby)" "status (gameState lobby) = Playing"
    "blueScore (gameState (withScores 2 0 lobby)) = 2"
    "goldScore (gameState (withScores 2 0 lobby)) = 0"
    "blueScore (gameState (withScores 0 2 lobby)) = 0"
    "goldScore (gameState (withScores 0 2 lobby)) = 2"
    by (simp_all add: withScores_def gameState_lobby initialGameState_def)
  show ?thesis
    using attackQueen_by_role [OF boundPlayer_lobby(5)] attackQueen_by_role [OF b4]
      attackQueen_by_role [OF b5] attackQueen_by_role [OF boundPlayer_lobby(3)] v
    by (simp add: member_def boundPlayer_lobby queenAlive_def scoreOf_def otherTeam_def)
qed

text \<open>
  C6. Each \<open>attackQueen\<close> performed by a soldier schedules one timer, due 5000 ms later,
  for the respawn of the targeted (opposing) queen. Whatever events \<open>evs\<close> come in
  before it is due (other attacks, the end of the game, joins, leaves, other timers), the
  timer is still pending; when the clock passes its due time it runs once: the targeted
  queen's alive flag is true afterwards, a state broadcast carrying the flag has been sent
  to everyone, and the timer is no longer pending. In whichever world \<open>w'\<close> the timer
  fires, it changes nothing of the game state but that flag, leaves the sockets as they
  are, and sends that one broadcast and nothing else.
\<close>

theorem respawn_timer_fires_regardless:
  assumes "boundPlayer w s = Some (k, p)" and "role p = Soldier"
    and "now (run evs (attackQueen s w)) < now w + 5000"
    and "now w + 5000 \<le> now (run evs (attackQueen s w)) + dt"
  shows "timers (attackQueen s w) =
           timers w @ [\<lparr>due = now w + 5000, callback = RespawnQueen (otherTeam (team p))\<rparr>] \<and>
         \<lparr>due = now w + 5000, callback = RespawnQueen (otherTeam (team p))\<rparr>
           \<in> set (timers (run evs (attackQueen s w))) \<and>
         queenAlive (otherTeam (team p))
           (gameState (step (Elapse dt) (run evs (attackQueen s w)))) \<and>
         (\<exists>gs. (ToAll, GameStateMsg gs)
                 \<in> set (sent (run evs (attackQueen s w))
                          (step (Elapse dt) (run evs (attackQueen s w)))) \<and>
               queenAlive (otherTeam (team p)) gs) \<and>
         \<lparr>due = now w + 5000, callback = RespawnQueen (otherTeam (team p))\<rparr>
           \<notin> set (timers (step (Elapse dt) (run evs (attackQueen s w)))) \<and>
         (\<forall>w'. gameState (fire \<lparr>due = now w + 5000,
                                  callback = RespawnQueen (otherTeam (team p))\<rparr> w') =
                 (if otherTeam (team p) = Blue
                  then (gameState w')\<lparr>blueQueenAlive := True\<rparr>
                  else (gameState w')\<lparr>goldQueenAlive := True\<rparr>) \<and>
               sockets (fire \<lparr>due = now w + 5000,
                               callback = RespawnQueen (otherTeam (team p))\<rparr> w') =
                 sockets w' \<and>
               sent w' (fire \<lparr>due = now w + 5000,
                               callback = RespawnQueen (otherTeam (team p))\<rparr> w') =
                 [(ToAll, GameStateMsg
                            (gameState (fire \<lparr>due = now w + 5000,
                               callback = RespawnQueen (otherTeam (team p))\<rparr> w')))])"
proof -
  let ?tm = "\<lparr>due = now w + 5000, callback = RespawnQueen (otherTeam (team p))\<rparr>"
  let ?w2 = "run evs (attackQueen s w)"
  have sch: "timers (attackQueen s w) = timers w @ [?tm]"
    using assms(1,2) by (rule attackQueen_schedules)
  then have "?tm \<in> set (timers (attackQueen s w))" by simp
  with run_keeps_timer [of "attackQueen s w" evs ?tm] assms(3)
  have pending: "?tm \<in> set (timers ?w2)" by simp
  have due: "due ?tm \<le> now ?w2 + dt" using assms(4) by simp
  have cb: "callback ?tm = RespawnQueen (otherTeam (team p))" by simp
  from advance_fires_respawn [OF pending due cb]
  have fires: "queenAlive (otherTeam (team p)) (gameState (step (Elapse dt) ?w2)) \<and>
     (\<exists>gs. (ToAll, GameStateMsg gs) \<in> set (sent ?w2 (step (Elapse dt) ?w2)) \<and>
           queenAlive (otherTeam (team p)) gs)"
    by simp
  have gone: "?tm \<notin> set (timers (step (Elapse dt) ?w2))"
    using advance_remaining [of ?tm "now ?w2 + dt" ?w2] due by auto
  have frame: "\<forall>w'. gameState (fire ?tm w') =
                 (if otherTeam (team p) = Blue
                  then (gameState w')\<lparr>blueQueenAlive := True\<rparr>
                  else (gameState w')\<lparr>goldQueenAlive := True\<rparr>) \<and>
               sockets (fire ?tm w') = sockets w' \<and>
               sent w' (fire ?tm w') = [(ToAll, GameStateMsg (gameState (fire ?tm w')))]"
    using fire_respawn_frame [OF cb] by blast
  from sch pending fires gone frame show ?thesis by blast
qed

theorem respawn_timer_fires_regardless_witness:
  "boundPlayer lobby 4 = Some (''e'', member ''e'' Blue Soldier) \<and>
   role (member ''e'' Blue Soldier) = Soldier \<and>
   now lobby = 0 \<and>
   now (run fightOn (attackQueen 4 lobby)) = 4000 \<and>
   status (gameState (run fightOn (attackQueen 4 lobby))) = Ended \<and>
   \<not> queenAlive Gold (gameState (run fightOn (attackQueen 4 lobby))) \<and>
   \<lparr>due = 5000, callback = RespawnQueen Gold\<rparr> \<in> set (timers (run fightOn (attackQueen 4 lobby))) \<and>
   queenAlive Gold (gameState (step (Elapse 1000) (run fightOn (attackQueen 4 lobby)))) \<and>
   \<lparr>due = 5000, callback = RespawnQueen Gold\<rparr>
     \<notin> set (timers (step (Elapse 1000) (run fightOn (attackQueen 4 lobby))))"
proof -
  have r: "role (member ''e'' Blue Soldier) = Soldier" "team (member ''e'' Blue Soldier) = Blue"
    by (simp_all add: member_def)
  have n: "now (run fightOn (attackQueen 4 lobby)) = 4000"
    by (simp add: fightOn_def handler_defs advance.simps gameState_lobby sockets_lobby
        timers_lobby now_lobby initialGameState_def member_def)
  have g: "status (gameState (run fightOn (attackQueen 4 lobby))) = Ended \<and>
           \<not> queenAlive Gold (gameState (run fightOn (attackQueen 4 lobby)))"
    by (simp add: fightOn_def handler_defs advance.simps gameState_lobby sockets_lobby
        timers_lobby now_lobby initialGameState_def member_def queenAlive_def)
  have h3: "now (run fightOn (attackQueen 4 lobby)) < now lobby + 5000"
    by (simp add: n now_lobby)
  have h4: "now lobby + 5000 \<le> now (run fightOn (attackQueen 4 lobby)) + 1000"
    by (simp add: n now_lobby)
  from respawn_timer_fires_regardless [OF boundPlayer_lobby(5) r(1) h3 h4] r n g
  show ?thesis
    by (simp add: boundPlayer_lobby now_lobby otherTeam_def)
qed

text \<open>
  C7 (as stated, refuted). The claim says that when the connection's bound player is not
  active the update is not applied and the game state is unchanged. The handler never
  reads \<open>isActive\<close>: right after \<open>leaveGame\<close> the bound player of socket 2 is inactive,
  and a \<open>playerUpdate\<close> from that socket still moves it.
\<close>

theorem playerUpdate_inactive_counterexample:
  "map_option (isActive \<circ> snd) (boundPlayer afterLeave 2) = Some False \<and>
   map_option position (map_of (players (gameState afterLeave)) ''c'') = Some (-15, 5, 0) \<and>
   map_option position
     (map_of (players (gameState (playerUpdate 2 (1, 2, 3) (0, 1, 0) afterLeave))) ''c'') =
     Some (1, 2, 3) \<and>
   gameState (playerUpdate 2 (1, 2, 3) (0, 1, 0) afterLeave) \<noteq> gameState afterLeave"
proof -
  have a: "map_option (isActive \<circ> snd) (boundPlayer afterLeave 2) = Some False"
    by (simp add: boundPlayer_afterLeave)
  have b: "map_option position (map_of (players (gameState afterLeave)) ''c'') = Some (-15, 5, 0)"
    by (simp add: gameState_afterLeave member_def)
  have c: "map_option position
     (map_of (players (gameState (playerUpdate 2 (1, 2, 3) (0, 1, 0) afterLeave))) ''c'') =
     Some (1, 2, 3)"
    by (simp add: playerUpdate_def boundMember_Entry [OF boundPlayer_afterLeave] update_conv')
  from b c have "gameState (playerUpdate 2 (1, 2, 3) (0, 1, 0) afterLeave) \<noteq> gameState afterLeave"
    by auto
  with a b c show ?thesis by blast
qed


text \<open>
  C7 (amended). The \<open>playerUpdate\<close> handler requires only that the caller's bound id has
  an entry in the roster, active or not: then it overwrites that player's position and
  rotation in place (same keys in the same order, every other entry as it was), sends the
  position update to the other sockets, and touches no win condition (every other field
  of the game state, the sockets and the timers are unchanged, no \<open>gameOver\<close> is sent).
  When the connection has no bound id, or its bound id names neither a roster entry nor a
  member the roster object inherits, the update is not applied and the world is unchanged.
\<close>

theorem playerUpdate_needs_roster_entry_only:
  "(boundPlayer w s = Some (k, p) \<longrightarrow>
      map_of (players (gameState (playerUpdate s pos rot w))) =
        (map_of (players (gameState w)))(k \<mapsto> p\<lparr>position := pos, rotation := rot\<rparr>) \<and>
      map fst (players (gameState (playerUpdate s pos rot w))) = map fst (players (gameState w)) \<and>
      gameState (playerUpdate s pos rot w) =
        (gameState w)\<lparr>players := players (gameState (playerUpdate s pos rot w))\<rparr> \<and>
      sent w (playerUpdate s pos rot w) = [(ToOthers s, PlayerPositionUpdate k pos rot)] \<and>
      sockets (playerUpdate s pos rot w) = sockets w \<and>
      timers (playerUpdate s pos rot w) = timers w) \<and>
   (noMember w s \<longrightarrow> playerUpdate s pos rot w = w)"
proof (cases "boundPlayer w s = Some (k, p)")
  case True
  then have m: "map_of (players (gameState w)) k = Some p"
    by (rule boundPlayer_in_roster)
  have keys: "map fst (AList.update k (p\<lparr>position := pos, rotation := rot\<rparr>) (players (gameState w))) =
              map fst (players (gameState w))"
    using m by (rule update_present_keys)
  have no: "\<not> noMember w s"
    using boundMember_Entry [OF True] by (simp add: noMember_def)
  from boundMember_Entry [OF True] True keys no show ?thesis
    by (simp add: playerUpdate_def Let_def update_conv' sent_def emit_def)
next
  case False
  then show ?thesis by (simp add: playerUpdate_def noMember_def)
qed

theorem playerUpdate_needs_roster_entry_only_witness:
  "boundPlayer afterLeave 2 = Some (''c'', (member ''c'' Blue Worker)\<lparr>isActive := False\<rparr>) \<and>
   map_of (players (gameState (playerUpdate 2 (1, 2, 3) (0, 1, 0) afterLeave))) ''c'' =
     Some ((member ''c'' Blue Worker)\<lparr>isActive := False, position := (1, 2, 3), rotation := (0, 1, 0)\<rparr>) \<and>
   sent afterLeave (playerUpdate 2 (1, 2, 3) (0, 1, 0) afterLeave) =
     [(ToOthers 2, PlayerPositionUpdate ''c'' (1, 2, 3) (0, 1, 0))] \<and>
   map_of (sockets afterReset) 2 = Some \<lparr>hasJoined = True, playerId = Some ''c'', live = True\<rparr> \<and>
   players (gameState afterReset) = [] \<and>
   noMember afterReset 2 \<and>
   playerUpdate 2 (1, 2, 3) (0, 1, 0) afterReset = afterReset \<and>
   map_of (sockets secondArrives) 1 = Some \<lparr>hasJoined = False, playerId = None, live = True\<rparr> \<and>
   noMember secondArrives 1 \<and>
   playerUpdate 1 (1, 2, 3) (0, 1, 0) secondArrives = secondArrives"
proof -
  have s2: "map_of (sockets afterReset) 2 = Some \<lparr>hasJoined = True, playerId = Some ''c'', live = True\<rparr>"
    by (simp add: sockets_afterReset sockets_lobby)
  have r: "players (gameState afterReset) = []"
    by (simp add: gameState_afterReset initialGameState_def)
  have n2: "noMember afterReset 2"
    using s2 r
    by (simp add: noMember_def boundMember_def lookupPlayer_def objectPrototypeMembers_def
        writtenOnPrototype_def)
  have s1: "map_of (sockets secondArrives) 1 = Some \<lparr>hasJoined = False, playerId = None, live = True\<rparr>"
    by (simp add: sockets_secondArrives)
  have n1: "noMember secondArrives 1"
    using s1 by (simp add: noMember_def boundMember_def)
  show ?thesis
    using playerUpdate_needs_roster_entry_only
            [of afterLeave 2 "''c''" "(member ''c'' Blue Worker)\<lparr>isActive := False\<rparr>"
                "(1, 2, 3)" "(0, 1, 0)"]
      playerUpdate_needs_roster_entry_only [of afterReset 2 "''c''" "member ''c'' Blue Worker"
                "(1, 2, 3)" "(0, 1, 0)"]
      playerUpdate_needs_roster_entry_only [of secondArrives 1 "''c''" "member ''c'' Blue Worker"
                "(1, 2, 3)" "(0, 1, 0)"]
      s2 r n2 s1 n1
    by (simp add: boundPlayer_afterLeave)
qed

text \<open>
  C8 (the code at an inherited name). The roster is a plain object, so the handler's test
  \<open>gameState.players[playerId]\<close> is truthy not only for an id in the roster but also for
  a name the object inherits from \<open>Object.prototype\<close>. With one player \<open>a\<close> in the
  roster, a \<open>reconnectPlayer\<close> from the second socket with the id \<open>constructor\<close>, which
  is not in the roster, takes the branch for a known player: the game state is as before
  (no player is created, the status stays waiting), the socket is bound to \<open>constructor\<close>,
  and the caller gets the state, not \<open>playerAssigned\<close>. A \<open>joinGame\<close> from the same socket
  in the same world creates the gold queen, starts the game and sends \<open>playerAssigned\<close>.
\<close>

theorem reconnectPlayer_inherited_name_is_no_join:
  "map_of (players (gameState secondArrives)) ''constructor'' = None \<and>
   status (gameState secondArrives) = Waiting \<and>
   gameState (step (ReconnectPlayer 1 ''constructor'' ''b'') secondArrives) =
     gameState secondArrives \<and>
   map_of (sockets (step (ReconnectPlayer 1 ''constructor'' ''b'') secondArrives)) 1 =
     Some \<lparr>hasJoined = True, playerId = Some ''constructor'', live = True\<rparr> \<and>
   sent secondArrives (step (ReconnectPlayer 1 ''constructor'' ''b'') secondArrives) =
     [(ToSocket 1, GameStateMsg (gameState secondArrives)),
      (ToAll, GameStateMsg (gameState secondArrives))] \<and>
   players (gameState (step (JoinGame 1 ''b'') secondArrives)) =
     [(''a'', member ''a'' Blue Queen), (''b'', member ''b'' Gold Queen)] \<and>
   status (gameState (step (JoinGame 1 ''b'') secondArrives)) = Playing \<and>
   map_of (sockets (step (JoinGame 1 ''b'') secondArrives)) 1 =
     Some \<lparr>hasJoined = True, playerId = Some ''b'', live = True\<rparr> \<and>
   sent secondArrives (step (JoinGame 1 ''b'') secondArrives) =
     [(ToSocket 1, PlayerAssigned ''b'' Gold Queen),
      (ToAll, GameStateMsg (gameState (step (JoinGame 1 ''b'') secondArrives)))]"
proof -
  note g = gameState_secondArrives and k = sockets_secondArrives
  have a: "map_of (players (gameState secondArrives)) ''constructor'' = None"
    by (simp add: g)
  have b: "status (gameState secondArrives) = Waiting"
    by (simp add: g initialGameState_def)
  have r: "step (ReconnectPlayer 1 ''constructor'' ''b'') secondArrives =
           broadcastState (emit (ToSocket 1) (GameStateMsg (gameState secondArrives))
             (secondArrives
                \<lparr>sockets := [(0, \<lparr>hasJoined = True, playerId = Some ''a'', live = True\<rparr>),
                             (1, \<lparr>hasJoined = True, playerId = Some ''constructor'', live = True\<rparr>)],
                 inheritedActive := AList.update ''constructor'' True
                                      (inheritedActive secondArrives)\<rparr>))"
    by (simp add: deliver_def reconnectPlayer_def lookupPlayer_def objectPrototypeMembers_def
        g k Let_def)
  have c: "gameState (step (ReconnectPlayer 1 ''constructor'' ''b'') secondArrives) =
             gameState secondArrives"
    using r by simp
  have d: "map_of (sockets (step (ReconnectPlayer 1 ''constructor'' ''b'') secondArrives)) 1 =
             Some \<lparr>hasJoined = True, playerId = Some ''constructor'', live = True\<rparr>"
    using r by simp
  have e: "sent secondArrives (step (ReconnectPlayer 1 ''constructor'' ''b'') secondArrives) =
             [(ToSocket 1, GameStateMsg (gameState secondArrives)),
              (ToAll, GameStateMsg (gameState secondArrives))]"
    using r by (simp add: sent_defs)
  have j: "step (JoinGame 1 ''b'') secondArrives =
           broadcastState (emit (ToSocket 1) (PlayerAssigned ''b'' Gold Queen)
             (secondArrives
                \<lparr>gameState := initialGameState
                    \<lparr>players := [(''a'', member ''a'' Blue Queen), (''b'', member ''b'' Gold Queen)],
                     status := Playing\<rparr>,
                 sockets := [(0, \<lparr>hasJoined = True, playerId = Some ''a'', live = True\<rparr>),
                             (1, \<lparr>hasJoined = True, playerId = Some ''b'', live = True\<rparr>)]\<rparr>))"
    by (simp add: deliver_def joinGame_def truthy_def assignTeamAndRole_def g k Let_def
        member_def initialGameState_def)
  have f: "players (gameState (step (JoinGame 1 ''b'') secondArrives)) =
             [(''a'', member ''a'' Blue Queen), (''b'', member ''b'' Gold Queen)]"
    and h: "status (gameState (step (JoinGame 1 ''b'') secondArrives)) = Playing"
    and i: "map_of (sockets (step (JoinGame 1 ''b'') secondArrives)) 1 =
             Some \<lparr>hasJoined = True, playerId = Some ''b'', live = True\<rparr>"
    using j by simp_all
  have l: "sent secondArrives (step (JoinGame 1 ''b'') secondArrives) =
             [(ToSocket 1, PlayerAssigned ''b'' Gold Queen),
              (ToAll, GameStateMsg (gameState (step (JoinGame 1 ''b'') secondArrives)))]"
    using j by (simp add: sent_defs)
  from a b c d e f h i l show ?thesis by blast
qed


text \<open>
  C8 (ids that name no member). For a \<open>playerId\<close> that is neither in the roster nor names
  a member the roster object inherits, \<open>reconnectPlayer\<close> does exactly what \<open>joinGame\<close>
  does on a socket that has not joined yet. It takes the new id from \<open>uuidv4()\<close>, runs the
  team and role assignment against the current roster, inserts an active player at the
  spawn position of its team, moves the status from waiting to playing when the roster
  then has at least 2 players, binds the socket, and sends \<open>playerAssigned\<close> to the caller
  and the state to everyone; nothing else is sent and no timer is set.
\<close>

theorem reconnect_unknown_is_fresh_join:
  assumes "map_of (sockets w) s = Some c"
    and "lookupPlayer (gameState w) k = None"
    and "k \<notin> set writtenOnPrototype"
  shows "reconnectPlayer s k uuid w = joinGame s uuid (unjoined s w) \<and>
         players (gameState (reconnectPlayer s k uuid w)) =
           AList.update uuid
             \<lparr>id_p = uuid,
              position = (if fst (assignTeamAndRole (players (gameState w))) = Blue
                          then (-15, 5, 0) else (15, 5, 0)),
              rotation = (0, 0, 0),
              team = fst (assignTeamAndRole (players (gameState w))),
              role = snd (assignTeamAndRole (players (gameState w))),
              isActive = True\<rparr>
             (players (gameState w)) \<and>
         status (gameState (reconnectPlayer s k uuid w)) =
           (if status (gameState w) = Waiting \<and>
               2 \<le> length (players (gameState (reconnectPlayer s k uuid w)))
            then Playing else status (gameState w)) \<and>
         gameState (reconnectPlayer s k uuid w) =
           (gameState w)\<lparr>players := players (gameState (reconnectPlayer s k uuid w)),
                          status := status (gameState (reconnectPlayer s k uuid w))\<rparr> \<and>
         sockets (reconnectPlayer s k uuid w) =
           AList.update s (c\<lparr>playerId := Some uuid, hasJoined := True\<rparr>) (sockets w) \<and>
         timers (reconnectPlayer s k uuid w) = timers w \<and>
         sent w (reconnectPlayer s k uuid w) =
           [(ToSocket s, PlayerAssigned uuid (fst (assignTeamAndRole (players (gameState w))))
                           (snd (assignTeamAndRole (players (gameState w))))),
            (ToAll, GameStateMsg (gameState (reconnectPlayer s k uuid w)))]"
  using assms(1,2) by (rule reconnectPlayer_fallback)

theorem reconnect_unknown_is_fresh_join_witness:
  "map_of (sockets secondArrives) 1 = Some \<lparr>hasJoined = False, playerId = None, live = True\<rparr> \<and>
   lookupPlayer (gameState secondArrives) ''stale'' = None \<and>
   ''stale'' \<notin> set writtenOnPrototype \<and>
   status (gameState secondArrives) = Waiting \<and>
   reconnectPlayer 1 ''stale'' ''b'' secondArrives = joinGame 1 ''b'' secondArrives \<and>
   players (gameState (reconnectPlayer 1 ''stale'' ''b'' secondArrives)) =
     [(''a'', member ''a'' Blue Queen), (''b'', member ''b'' Gold Queen)] \<and>
   status (gameState (reconnectPlayer 1 ''stale'' ''b'' secondArrives)) = Playing \<and>
   map_of (sockets (reconnectPlayer 1 ''stale'' ''b'' secondArrives)) 1 =
     Some \<lparr>hasJoined = True, playerId = Some ''b'', live = True\<rparr> \<and>
   sent secondArrives (reconnectPlayer 1 ''stale'' ''b'' secondArrives) =
     [(ToSocket 1, PlayerAssigned ''b'' Gold Queen),
      (ToAll, GameStateMsg (gameState (reconnectPlayer 1 ''stale'' ''b'' secondArrives)))]"
proof -
  note g = gameState_secondArrives and k = sockets_secondArrives
  have h1: "map_of (sockets secondArrives) 1 = Some \<lparr>hasJoined = False, playerId = None, live = True\<rparr>"
    by (simp add: k)
  have h2: "lookupPlayer (gameState secondArrives) ''stale'' = None"
    by (simp add: g lookupPlayer_def objectPrototypeMembers_def)
  have h3: "''stale'' \<notin> set writtenOnPrototype"
    by (simp add: writtenOnPrototype_def)
  have u: "unjoined 1 secondArrives = secondArrives"
    by (simp add: unjoined_def k)
  have a: "assignTeamAndRole (players (gameState secondArrives)) = (Gold, Queen)"
    by (simp add: g assignTeamAndRole_def member_def)
  have st: "status (gameState secondArrives) = Waiting"
    by (simp add: g initialGameState_def)
  note fresh = reconnect_unknown_is_fresh_join [OF h1 h2 h3, of "''b''", unfolded u a st]
  have two: "AList.update ''b'' (member ''b'' Gold Queen) (players (gameState secondArrives)) =
             [(''a'', member ''a'' Blue Queen), (''b'', member ''b'' Gold Queen)]"
    by (simp add: g)
  from fresh have e: "reconnectPlayer 1 ''stale'' ''b'' secondArrives = joinGame 1 ''b'' secondArrives"
    by (rule conjunct1)
  have rest:
    "players (gameState (reconnectPlayer 1 ''stale'' ''b'' secondArrives)) =
       [(''a'', member ''a'' Blue Queen), (''b'', member ''b'' Gold Queen)] \<and>
     status (gameState (reconnectPlayer 1 ''stale'' ''b'' secondArrives)) = Playing \<and>
     map_of (sockets (reconnectPlayer 1 ''stale'' ''b'' secondArrives)) 1 =
       Some \<lparr>hasJoined = True, playerId = Some ''b'', live = True\<rparr> \<and>
     sent secondArrives (reconnectPlayer 1 ''stale'' ''b'' secondArrives) =
       [(ToSocket 1, PlayerAssigned ''b'' Gold Queen),
        (ToAll, GameStateMsg (gameState (reconnectPlayer 1 ''stale'' ''b'' secondArrives)))]"
    using fresh [THEN conjunct2]
    by (simp add: member_def [symmetric, of _ Gold Queen, simplified] two k)
  from h1 h2 h3 st e rest show ?thesis by blast
qed

text \<open>
  C9 (as stated, refuted). The claim says that no sequence of \<open>joinGame\<close>,
  \<open>reconnectPlayer\<close>, \<open>leaveGame\<close> and \<open>disconnect\<close> events leaves two connected
  sockets bound to the same player id. Socket 0 joins as player \<open>a\<close>; socket 1 connects
  and sends \<open>reconnectPlayer\<close> with the id \<open>a\<close>: the roster has it, so socket 1 is bound
  to \<open>a\<close> while socket 0 is still connected and bound to \<open>a\<close>.
\<close>

theorem two_sockets_one_player_counterexample:
  "map fst (players (gameState (run twoSessions initialWorld))) = [''a''] \<and>
   sockets (run twoSessions initialWorld) =
     [(0, \<lparr>hasJoined = True, playerId = Some ''a'', live = True\<rparr>),
      (1, \<lparr>hasJoined = True, playerId = Some ''a'', live = True\<rparr>)] \<and>
   holders ''a'' (run twoSessions initialWorld) = [0, 1]"
  by (simp add: twoSessions_def start_defs handler_defs holders_def)


text \<open>
  C9 (amended). \<open>reconnectPlayer\<close> binds the calling socket to the requested id whenever
  the roster has it, without looking at or releasing another socket bound to that id. What
  holds is: in every sequence of connections, client events and timer firings from the
  initial world in which each id is, at the moment \<open>joinGame\<close> or \<open>reconnectPlayer\<close>
  binds a socket to it, not held by another connected socket (fresh uuids, and reconnects
  only as a player whose earlier socket is gone or unbound), every player id is held by at
  most one connected socket at all times.
\<close>

theorem one_session_per_player_when_exclusive:
  assumes "exclusive evs initialWorld"
  shows "length (holders k (run evs initialWorld)) \<le> 1"
proof -
  have "sessionsOK initialWorld"
    by (simp add: sessionsOK_def oneHolder_def initialWorld_def)
  then have "sessionsOK (run evs initialWorld)"
    using assms by (rule sessionsOK_run)
  then show ?thesis by (rule sessionsOK_holders)
qed

theorem one_session_per_player_when_exclusive_witness:
  "exclusive handover initialWorld \<and>
   length (holders ''a'' (run handover initialWorld)) \<le> 1 \<and>
   holders ''a'' (run handover initialWorld) = [2] \<and>
   holders ''b'' (run handover initialWorld) = [1]"
proof -
  have e: "exclusive handover initialWorld"
    by (simp add: handover_def start_defs handler_defs holders_def heldElsewhere_def)
  have h: "holders ''a'' (run handover initialWorld) = [2] \<and>
           holders ''b'' (run handover initialWorld) = [1]"
    by (simp add: handover_def start_defs handler_defs holders_def)
  from one_session_per_player_when_exclusive [OF e, of "''a''"] e h show ?thesis by simp
qed

text \<open>
  C10 (the code at an inherited name). Socket 6 was bound to the id \<open>constructor\<close> by
  \<open>reconnectPlayer\<close>; the game ended and the idle check reset it, so the roster is empty
  and socket 6 still has its bound id and its \<open>hasJoined\<close> flag. The id is absent from the
  new roster, yet the handlers' test \<open>gameState.players[playerId]\<close> finds the member of
  that name the roster object inherits. So the connection's events are not silent: its
  \<open>playerUpdate\<close> sends a position update for \<open>constructor\<close> to the other sockets, its
  \<open>leaveGame\<close> broadcasts the state and, one second later, clears the socket's bound id
  and \<open>hasJoined\<close>, after which its \<open>joinGame\<close> is accepted and creates the blue queen.
  Its \<open>reconnectPlayer\<close> with the stale id creates no player: it takes the branch for a
  known player and sends the state, not \<open>playerAssigned\<close>.
\<close>

theorem reset_leaves_inherited_binding_live:
  "status (gameState endedBound) = Ended \<and>
   map_of (sockets endedBound) 6 =
     Some \<lparr>hasJoined = True, playerId = Some ''constructor'', live = True\<rparr> \<and>
   gameState afterReset = initialGameState \<and>
   sockets afterReset = sockets endedBound \<and>
   map_of (players (gameState afterReset)) ''constructor'' = None \<and>
   sent afterReset (step (PlayerUpdate 6 (1, 2, 3) (0, 1, 0)) afterReset) =
     [(ToOthers 6, PlayerPositionUpdate ''constructor'' (1, 2, 3) (0, 1, 0))] \<and>
   sent afterReset (step (LeaveGame 6) afterReset) = [(ToAll, GameStateMsg initialGameState)] \<and>
   map_of (sockets (run [LeaveGame 6, Elapse 1000] afterReset)) 6 =
     Some \<lparr>hasJoined = False, playerId = None, live = True\<rparr> \<and>
   players (gameState (run [LeaveGame 6, Elapse 1000, JoinGame 6 ''h''] afterReset)) =
     [(''h'', member ''h'' Blue Queen)] \<and>
   players (gameState (step (ReconnectPlayer 6 ''constructor'' ''h'') afterReset)) = [] \<and>
   sent afterReset (step (ReconnectPlayer 6 ''constructor'' ''h'') afterReset) =
     [(ToSocket 6, GameStateMsg initialGameState), (ToAll, GameStateMsg initialGameState)]"
proof -
  note g = gameState_afterReset and k = sockets_afterReset sockets_lobby
    and t = timers_afterReset and n = now_afterReset
  have a: "status (gameState endedBound) = Ended"
    by (simp add: gameState_endedBound)
  have b: "map_of (sockets endedBound) 6 =
             Some \<lparr>hasJoined = True, playerId = Some ''constructor'', live = True\<rparr>"
    by (simp add: sockets_endedBound sockets_lobby)
  have c: "sockets afterReset = sockets endedBound"
    by (simp add: sockets_afterReset sockets_endedBound)
  have d: "map_of (players (gameState afterReset)) ''constructor'' = None"
    by (simp add: g initialGameState_def)
  have bm: "boundMember afterReset 6 = Some (''constructor'', Inherited)"
    by (simp add: boundMember_def lookupPlayer_def objectPrototypeMembers_def g k
        initialGameState_def)
  have live: "deliver 6 h afterReset = h afterReset" for h
    by (simp add: deliver_def k)
  have e: "sent afterReset (step (PlayerUpdate 6 (1, 2, 3) (0, 1, 0)) afterReset) =
             [(ToOthers 6, PlayerPositionUpdate ''constructor'' (1, 2, 3) (0, 1, 0))]"
    by (simp add: live playerUpdate_def bm sent_defs)
  have lv: "leaveGame 6 afterReset =
              setTimeout (LeaveSweep 6 ''constructor'') 1000
                (broadcastState
                   (afterReset\<lparr>inheritedActive :=
                      AList.update ''constructor'' False (inheritedActive afterReset)\<rparr>))"
    by (simp add: leaveGame_def bm)
  have f: "sent afterReset (step (LeaveGame 6) afterReset) = [(ToAll, GameStateMsg initialGameState)]"
    by (simp add: live lv sent_defs g)
  have sw: "sockets (run [LeaveGame 6, Elapse 1000] afterReset) =
              sockets lobby @ [(6, \<lparr>hasJoined = False, playerId = None, live = True\<rparr>)]"
    and gw: "gameState (run [LeaveGame 6, Elapse 1000] afterReset) = initialGameState"
    by (simp_all add: live lv setTimeout_def broadcastState_def emit_def fire_def Let_def
        advance.simps lookupPlayer_def objectPrototypeMembers_def g k t n initialGameState_def)
  have h: "map_of (sockets (run [LeaveGame 6, Elapse 1000] afterReset)) 6 =
             Some \<lparr>hasJoined = False, playerId = None, live = True\<rparr>"
    using sw by (simp add: sockets_lobby)
  have "run [LeaveGame 6, Elapse 1000, JoinGame 6 ''h''] afterReset =
          step (JoinGame 6 ''h'') (run [LeaveGame 6, Elapse 1000] afterReset)"
    by simp
  then have i: "players (gameState (run [LeaveGame 6, Elapse 1000, JoinGame 6 ''h''] afterReset)) =
             [(''h'', member ''h'' Blue Queen)]"
    by (simp add: deliver_def joinGame_def truthy_def assignTeamAndRole_def Let_def sw gw
        sockets_lobby initialGameState_def member_def del: run.simps)
  have rc: "reconnectPlayer 6 ''constructor'' ''h'' afterReset =
              broadcastState (emit (ToSocket 6) (GameStateMsg initialGameState)
                (afterReset\<lparr>sockets := sockets afterReset,
                    inheritedActive :=
                      AList.update ''constructor'' True (inheritedActive afterReset)\<rparr>))"
    by (simp add: reconnectPlayer_def lookupPlayer_def objectPrototypeMembers_def Let_def
        g k initialGameState_def)
  have j: "players (gameState (step (ReconnectPlayer 6 ''constructor'' ''h'') afterReset)) = []"
    by (simp add: live rc g initialGameState_def)
  have l: "sent afterReset (step (ReconnectPlayer 6 ''constructor'' ''h'') afterReset) =
             [(ToSocket 6, GameStateMsg initialGameState), (ToAll, GameStateMsg initialGameState)]"
    by (simp add: live rc sent_defs g)
  from a b g c d e f h i j l show ?thesis by blast
qed


text \<open>
  C10 (ids that name no member). When the periodic idle check runs with the status ended,
  it replaces the whole game state by a fresh copy of the initial one and broadcasts it,
  but clears no per-connection state. A connection that was bound to an id that names no
  member the roster object inherits keeps its \<open>playerId\<close>, which is absent from the new
  roster, so every sequence of its gameplay events (\<open>playerUpdate\<close>, \<open>collectBerry\<close>,
  \<open>moveSnail\<close>, \<open>attackQueen\<close>, \<open>leaveGame\<close>) and, because its \<open>hasJoined\<close> flag is
  still set, of its \<open>joinGame\<close> events, sent right after the reset, leaves the world as
  it is and sends nothing. A \<open>reconnectPlayer\<close> with the stale id falls back to creating a
  brand-new player (the first of the new roster, a blue queen) and binds the connection
  to it.
\<close>

theorem reset_strands_bound_connections:
  assumes "status (gameState w) = Ended"
    and "map_of (sockets w) s = Some c" and "playerId c = Some k" and "hasJoined c"
    and "k \<notin> set objectPrototypeMembers" and "k \<notin> set writtenOnPrototype"
    and "list_all (ownGameplay s) evs"
  shows "gameState (idleCheck w) = initialGameState \<and>
         sockets (idleCheck w) = sockets w \<and>
         sent w (idleCheck w) = [(ToAll, GameStateMsg initialGameState)] \<and>
         map_of (players (gameState (idleCheck w))) k = None \<and>
         run evs (idleCheck w) = idleCheck w \<and>
         players (gameState (reconnectPlayer s k uuid (idleCheck w))) =
           [(uuid, \<lparr>id_p = uuid, position = (-15, 5, 0), rotation = (0, 0, 0),
                    team = Blue, role = Queen, isActive = True\<rparr>)] \<and>
         map_of (sockets (reconnectPlayer s k uuid (idleCheck w))) s =
           Some (c\<lparr>playerId := Some uuid, hasJoined := True\<rparr>) \<and>
         sent (idleCheck w) (reconnectPlayer s k uuid (idleCheck w)) =
           [(ToSocket s, PlayerAssigned uuid Blue Queen),
            (ToAll, GameStateMsg (gameState (reconnectPlayer s k uuid (idleCheck w))))]"
proof -
  have ic: "idleCheck w = broadcastState (w\<lparr>gameState := initialGameState\<rparr>)"
    using assms(1) by (simp add: idleCheck_def resetGame_def)
  have gs: "gameState (idleCheck w) = initialGameState"
    and so: "sockets (idleCheck w) = sockets w"
    and se: "sent w (idleCheck w) = [(ToAll, GameStateMsg initialGameState)]"
    by (simp_all add: ic sent_defs broadcastState_def emit_def)
  have empty: "players (gameState (idleCheck w)) = []"
    by (simp add: gs initialGameState_def)
  have absent: "map_of (players (gameState (idleCheck w))) k = None"
    by (simp add: empty)
  have unknown: "lookupPlayer (gameState (idleCheck w)) k = None"
    using assms(5) by (simp add: lookupPlayer_def empty)
  have unbound: "boundMember (idleCheck w) s = None"
    using assms(2,3) by (simp add: boundMember_def so unknown)
  have noop: "run evs (idleCheck w) = idleCheck w"
    using unbound _ assms(4,7) by (rule stranded_run) (simp add: so assms(2))
  have a: "assignTeamAndRole [] = (Blue, Queen)"
    by (simp add: assignTeamAndRole_def)
  note fresh = reconnectPlayer_fallback [of "idleCheck w" s c k uuid, unfolded so, OF assms(2) unknown]
  have re: "players (gameState (reconnectPlayer s k uuid (idleCheck w))) =
           [(uuid, \<lparr>id_p = uuid, position = (-15, 5, 0), rotation = (0, 0, 0),
                    team = Blue, role = Queen, isActive = True\<rparr>)] \<and>
         map_of (sockets (reconnectPlayer s k uuid (idleCheck w))) s =
           Some (c\<lparr>playerId := Some uuid, hasJoined := True\<rparr>) \<and>
         sent (idleCheck w) (reconnectPlayer s k uuid (idleCheck w)) =
           [(ToSocket s, PlayerAssigned uuid Blue Queen),
            (ToAll, GameStateMsg (gameState (reconnectPlayer s k uuid (idleCheck w))))]"
    using fresh [THEN conjunct2] by (simp add: empty a update_conv')
  from gs so se absent noop re show ?thesis by blast
qed

theorem reset_strands_bound_connections_witness:
  "status (gameState afterTwelve) = Ended \<and>
   map_of (sockets afterTwelve) 2 = Some \<lparr>hasJoined = True, playerId = Some ''c'', live = True\<rparr> \<and>
   ''c'' \<notin> set objectPrototypeMembers \<and> ''c'' \<notin> set writtenOnPrototype \<and>
   list_all (ownGameplay 2) strandedTries \<and>
   gameState (idleCheck afterTwelve) = initialGameState \<and>
   sockets (idleCheck afterTwelve) = sockets afterTwelve \<and>
   run strandedTries (idleCheck afterTwelve) = idleCheck afterTwelve \<and>
   players (gameState (reconnectPlayer 2 ''c'' ''n'' (idleCheck afterTwelve))) =
     [(''n'', member ''n'' Blue Queen)] \<and>
   map_of (sockets (reconnectPlayer 2 ''c'' ''n'' (idleCheck afterTwelve))) 2 =
     Some \<lparr>hasJoined = True, playerId = Some ''n'', live = True\<rparr>"
proof -
  have h1: "status (gameState afterTwelve) = Ended"
    by (simp add: gameState_afterTwelve)
  have h2: "map_of (sockets afterTwelve) 2 =
              Some \<lparr>hasJoined = True, playerId = Some ''c'', live = True\<rparr>"
    by (simp add: sockets_afterTwelve sockets_lobby)
  have h3: "playerId \<lparr>hasJoined = True, playerId = Some ''c'', live = True\<rparr> = Some ''c''"
    and h4: "hasJoined \<lparr>hasJoined = True, playerId = Some ''c'', live = True\<rparr>"
    by simp_all
  have h5: "''c'' \<notin> set objectPrototypeMembers" and h6: "''c'' \<notin> set writtenOnPrototype"
    by (simp_all add: objectPrototypeMembers_def writtenOnPrototype_def)
  have h7: "list_all (ownGameplay 2) strandedTries"
    by (simp add: strandedTries_def)
  from reset_strands_bound_connections [OF h1 h2 h3 h4 h5 h6 h7, of "''n''"] h1 h2 h5 h6 h7
  show ?thesis by (simp add: member_def)
qed

end
